theory Spec2Isabelle
  imports Complex_Main
begin

section \<open>Python strings and containers used by \<open>scripts/strict_check.py\<close>\<close>

text \<open>
  Strings are \<open>string\<close>; the case conversions below act on the ASCII letters and leave
  every other character as it is.  A Python \<open>set\<close> of strings is a duplicate-free list in
  insertion order; a \<open>dict\<close> is a map.
\<close>

definition sq :: string where
  "sq = [CHR 0x27]"

definition char_upper :: "char \<Rightarrow> char" where
  "char_upper c =
     (let n = (of_char c :: nat) in if 97 \<le> n \<and> n \<le> 122 then char_of (n - 32) else c)"

definition char_lower :: "char \<Rightarrow> char" where
  "char_lower c =
     (let n = (of_char c :: nat) in if 65 \<le> n \<and> n \<le> 90 then char_of (n + 32) else c)"

definition upper :: "string \<Rightarrow> string" where
  "upper s = map char_upper s"

definition lower :: "string \<Rightarrow> string" where
  "lower s = map char_lower s"

text \<open>\<open>sub in s\<close> on strings.\<close>

fun contains :: "string \<Rightarrow> string \<Rightarrow> bool" where
  "contains sub [] = (sub = [])"
| "contains sub (c # cs) = (take (length sub) (c # cs) = sub \<or> contains sub cs)"

text \<open>\<open>s.split(d)\<close> for a one-character separator: never the empty list.\<close>

fun split_on :: "char \<Rightarrow> string \<Rightarrow> string list" where
  "split_on d [] = [[]]"
| "split_on d (c # cs) =
     (if c = d then [] # split_on d cs
      else (case split_on d cs of [] \<Rightarrow> [[c]] | p # ps \<Rightarrow> (c # p) # ps))"

text \<open>\<open>sep.join(xs)\<close>.\<close>

fun join :: "string \<Rightarrow> string list \<Rightarrow> string" where
  "join sep [] = []"
| "join sep [x] = x"
| "join sep (x # y # ys) = x @ sep @ join sep (y # ys)"

text \<open>\<open>s.rpartition(d)[-1]\<close>: what follows the last \<open>d\<close>, the whole string without one.\<close>

definition rpartition_last :: "char \<Rightarrow> string \<Rightarrow> string" where
  "rpartition_last d s = rev (takeWhile (\<lambda>c. c \<noteq> d) (rev s))"

text \<open>\<open>s.add(x)\<close> on a set.\<close>

definition set_add :: "'a \<Rightarrow> 'a list \<Rightarrow> 'a list" where
  "set_add x xs = (if x \<in> set xs then xs else xs @ [x])"

section \<open>Exceptions\<close>

datatype error =
    RuntimeError string
  | AttributeError string
  | KeyError string
  | TypeError string
  | OtherError string

text \<open>\<open>str(e)\<close>.\<close>

fun str_error :: "error \<Rightarrow> string" where
  "str_error (RuntimeError m) = m"
| "str_error (AttributeError m) = m"
| "str_error (KeyError k) = sq @ k @ sq"
| "str_error (TypeError m) = m"
| "str_error (OtherError m) = m"

section \<open>The capability parser: \<open>parse_wms\<close>\<close>

text \<open>
  An element of \<open>xml.etree.ElementTree\<close>: tag, attributes, text (\<open>None\<close> for an element
  without text) and children in document order.  The XML reader itself is a parameter
  \<open>et\<close> of \<open>parse_wms\<close>: \<open>et xml = None\<close> when \<open>ET.iterparse\<close> raises.
\<close>

datatype xml =
  Element (tag: string) (attrib: "(string \<times> string) list") (text_of: "string option")
          (children: "xml list")

text \<open>The loop \<open>for _, el in it: _, _, el.tag = el.tag.rpartition('}')\<close>.\<close>

fun strip_ns :: "xml \<Rightarrow> xml" where
  "strip_ns (Element t a x cs) = Element (rpartition_last CHR ''}'' t) a x (map strip_ns cs)"

text \<open>\<open>element.find("./T")\<close> and \<open>element.findall("./T")\<close>.\<close>

definition find_child :: "string \<Rightarrow> xml \<Rightarrow> xml option" where
  "find_child t e = List.find (\<lambda>c. tag c = t) (children e)"

definition findall :: "string \<Rightarrow> xml \<Rightarrow> xml list" where
  "findall t e = filter (\<lambda>c. tag c = t) (children e)"

text \<open>All sub-elements on all levels beneath an element, in document order (\<open>.//\<close>).\<close>

fun descendants :: "xml \<Rightarrow> xml list" where
  "descendants (Element t a x cs) = concat (map (\<lambda>c. c # descendants c) cs)"

text \<open>One more step \<open>/T\<close> of a path, from a list of context elements.\<close>

definition step :: "string \<Rightarrow> xml list \<Rightarrow> xml list" where
  "step t es = concat (map (findall t) es)"

type_synonym style = "(string \<times> string option) list"

type_synonym styles = "string option \<rightharpoonup> style"

text \<open>
  A layer dictionary.  \<open>CRS\<close> holds a reference to a set object: the address of the set in
  the store \<open>sets\<close>.  The keys \<open>Name\<close>, \<open>Title\<close> and \<open>Abstract\<close> are present only when
  the element has such a child (outer \<open>Some\<close>), with the child's text as value.
\<close>

record layer =
  CRS :: nat
  Styles :: styles
  Name :: "string option option"
  Title :: "string option option"
  Abstract :: "string option option"

record pstate =
  sets :: "string list list"
  layers :: "string option \<rightharpoonup> layer"

record wms =
  version :: string
  store :: pstate
  formats :: "string option list"

text \<open>\<open>for e in es: new_layer["CRS"].add(e.text.upper())\<close>, on the set at address \<open>a\<close>.\<close>

fun add_crs :: "xml list \<Rightarrow> nat \<Rightarrow> string list list \<Rightarrow> error + string list list" where
  "add_crs [] a h = Inr h"
| "add_crs (e # es) a h =
     (case text_of e of
        None \<Rightarrow> Inl (AttributeError (sq @ ''NoneType'' @ sq @ '' object has no attribute ''
                                    @ sq @ ''upper'' @ sq))
      | Some t \<Rightarrow> add_crs es a (h[a := set_add (upper t) (h ! a)]))"

definition new_style :: "xml \<Rightarrow> style" where
  "new_style e =
     (case find_child ''Title'' e of None \<Rightarrow> [] | Some el \<Rightarrow> [(''Title'', text_of el)]) @
     (case find_child ''Name'' e of None \<Rightarrow> [] | Some el \<Rightarrow> [(''Name'', text_of el)])"

text \<open>\<open>new_layer["Styles"][new_style['Name']] = new_style\<close> for every \<open>Style\<close> child.\<close>

fun add_styles :: "xml list \<Rightarrow> styles \<Rightarrow> error + styles" where
  "add_styles [] s = Inr s"
| "add_styles (e # es) s =
     (case map_of (new_style e) ''Name'' of
        None \<Rightarrow> Inl (KeyError ''Name'')
      | Some nm \<Rightarrow> add_styles es (s(nm \<mapsto> new_style e)))"

definition child_text :: "string \<Rightarrow> xml \<Rightarrow> string option option" where
  "child_text t e = map_option text_of (find_child t e)"

text \<open>
  \<open>parse_layer(element, crs, styles)\<close>.  \<open>crs\<close> is the address of the set object the call
  received; \<open>new_layer['CRS']\<close> is that same object.  \<open>parse_sublayers\<close> is the final loop
  \<open>for sl in element.findall("./Layer")\<close>: each call gets \<open>new_layer['CRS'].copy()\<close>, a
  new set object with the contents the parent's set has at that moment.
\<close>

fun parse_layer :: "xml \<Rightarrow> nat \<Rightarrow> styles \<Rightarrow> pstate \<Rightarrow> error + pstate"
  and parse_sublayers :: "xml list \<Rightarrow> nat \<Rightarrow> styles \<Rightarrow> pstate \<Rightarrow> error + pstate" where
  "parse_layer (Element t a x cs) crs styles st =
     (let element = Element t a x cs in
      case add_crs (findall ''CRS'' element @ findall ''SRS'' element) crs (sets st) of
        Inl e \<Rightarrow> Inl e
      | Inr h \<Rightarrow>
          (case add_styles (findall ''Style'' element) (Map.empty ++ styles) of
             Inl e \<Rightarrow> Inl e
           | Inr stys \<Rightarrow>
               (let new_layer = \<lparr>CRS = crs, Styles = stys,
                                  Name = child_text ''Name'' element,
                                  Title = child_text ''Title'' element,
                                  Abstract = child_text ''Abstract'' element\<rparr>;
                    ls = (case Name new_layer of
                            None \<Rightarrow> layers st
                          | Some n \<Rightarrow> (layers st)(n \<mapsto> new_layer))
                in parse_sublayers cs crs stys \<lparr>sets = h, layers = ls\<rparr>)))"
| "parse_sublayers [] crs styles st = Inr st"
| "parse_sublayers (sl # sls) crs styles st =
     (if tag sl = ''Layer''
      then (case parse_layer sl (length (sets st)) styles
                   (st\<lparr>sets := sets st @ [sets st ! crs]\<rparr>) of
              Inl e \<Rightarrow> Inl e
            | Inr st' \<Rightarrow> parse_sublayers sls crs styles st')
      else parse_sublayers sls crs styles st)"

text \<open>
  The loop \<open>for top_layer in top_layers: parse_layer(top_layer)\<close>.  Both arguments are
  left out, so every call receives the default values of \<open>crs=set()\<close> and \<open>styles={}\<close>:
  the one set object made when \<open>def parse_layer\<close> was executed, at address 0, and the
  one dictionary, which no call changes.
\<close>

fun parse_top_layers :: "xml list \<Rightarrow> pstate \<Rightarrow> error + pstate" where
  "parse_top_layers [] st = Inr st"
| "parse_top_layers (top_layer # ts) st =
     (case parse_layer top_layer 0 Map.empty st of
        Inl e \<Rightarrow> Inl e
      | Inr st' \<Rightarrow> parse_top_layers ts st')"

definition top_layers :: "xml \<Rightarrow> xml list" where
  "top_layers root_el = step ''Layer'' (filter (\<lambda>e. tag e = ''Capability'') (descendants root_el))"

definition format_elements :: "xml \<Rightarrow> xml list" where
  "format_elements root_el =
     step ''Format'' (step ''GetMap'' (step ''Request''
       (filter (\<lambda>e. tag e = ''Capability'') (descendants root_el))))"

definition parse_wms :: "(string \<Rightarrow> xml option) \<Rightarrow> string \<Rightarrow> error + wms" where
  "parse_wms et xml =
     (case et xml of
        None \<Rightarrow> Inl (RuntimeError ''Could not parse XML.'')
      | Some r \<Rightarrow>
          (let root_el = strip_ns r;
               root_tag = rpartition_last CHR ''}'' (tag root_el)
           in if root_tag \<in> {''ServiceExceptionReport'', ''ServiceException''}
              then Inl (RuntimeError ''WMS service exception'')
              else if root_tag \<notin> {''WMT_MS_Capabilities'', ''WMS_Capabilities''}
              then Inl (RuntimeError (''No Capabilities Element present: Root tag: '' @ root_tag))
              else (case map_of (attrib root_el) ''version'' of
                      None \<Rightarrow> Inl (RuntimeError ''WMS version cannot be identified.'')
                    | Some v \<Rightarrow>
                        (case parse_top_layers (top_layers root_el)
                                \<lparr>sets = [[]], layers = Map.empty\<rparr> of
                           Inl e \<Rightarrow> Inl e
                         | Inr st \<Rightarrow>
                             Inr \<lparr>version = v, store = st,
                                  formats = map text_of (format_elements root_el)\<rparr>))))"

text \<open>\<open>wms['layers'][name]['CRS']\<close>, read through the reference.\<close>

definition layer_crs :: "wms \<Rightarrow> string \<Rightarrow> string list option" where
  "layer_crs w name = map_option (\<lambda>l. sets (store w) ! CRS l) (layers (store w) (Some name))"

section \<open>Decimal numerals, comparison and replacement of strings\<close>

definition digit :: "nat \<Rightarrow> char" where
  "digit n = char_of (48 + n)"

function str_nat :: "nat \<Rightarrow> string" where
  "str_nat n = (if n < 10 then [digit n] else str_nat (n div 10) @ [digit (n mod 10)])"
  by pat_completeness auto
termination
  by (relation "measure (\<lambda>n. n)") auto

text \<open>\<open>str(i)\<close> for an integer.\<close>

definition str_int :: "int \<Rightarrow> string" where
  "str_int i = (if i < 0 then ''-'' @ str_nat (nat (- i)) else str_nat (nat i))"

text \<open>\<open>a < b\<close> on strings: lexicographic by character code.\<close>

fun str_less :: "string \<Rightarrow> string \<Rightarrow> bool" where
  "str_less [] [] = False"
| "str_less [] (y # ys) = True"
| "str_less (x # xs) [] = False"
| "str_less (x # xs) (y # ys) =
     ((of_char x :: nat) < of_char y \<or> (x = y \<and> str_less xs ys))"

text \<open>\<open>s.replace(old, new)\<close>.\<close>

function replace_str :: "string \<Rightarrow> string \<Rightarrow> string \<Rightarrow> string" where
  "replace_str old new s =
     (if old = [] then new @ concat (map (\<lambda>c. c # new) s)
      else if s = [] then []
      else if take (length old) s = old then new @ replace_str old new (drop (length old) s)
      else hd s # replace_str old new (tl s))"
  by pat_completeness auto
termination
  by (relation "measure (\<lambda>(old, new, s). length s)") auto

text \<open>\<open>s.split(d, 1)\<close>: one or two parts.\<close>

definition split_first :: "char \<Rightarrow> string \<Rightarrow> string list" where
  "split_first d s =
     (if d \<in> set s then [takeWhile (\<lambda>c. c \<noteq> d) s, tl (dropWhile (\<lambda>c. c \<noteq> d) s)] else [s])"

section \<open>The WMS validator: \<open>check_wms\<close>\<close>

text \<open>
  The source dictionary, as far as the checks read it: \<open>properties.url\<close>,
  \<open>properties.available_projections\<close>, \<open>properties.min_zoom\<close> and \<open>properties.max_zoom\<close>
  (\<open>None\<close> for an absent key).
\<close>

record source =
  url :: string
  available_projections :: "string list option"
  min_zoom :: "int option"
  max_zoom :: "int option"

text \<open>The three lists the checks append to.\<close>

record msgs =
  good_msgs :: "string list"
  warning_msgs :: "string list"
  error_msgs :: "string list"

text \<open>
  The query that \<open>get_GetCapabilities_url\<close> puts in the place of the URL's own: the items
  of \<open>get_capabilities_args\<close>, in order.
\<close>

type_synonym request = "(string \<times> string) list"

text \<open>
  What \<open>check_wms\<close> calls and does not define:
  \<^item> \<open>validators_url\<close>: \<open>validators.url\<close>, read as a truth value;
  \<^item> \<open>urlparse_query\<close>: \<open>urlparse(wms_url).query\<close>, or the exception \<open>urlparse\<close> raises;
  \<^item> \<open>unquote\<close>: the percent-decoding \<open>parse_qsl\<close> applies to names and values;
  \<^item> \<open>requests_get\<close>: \<open>requests.get(url, headers=headers).text\<close> for the source's URL with
    its query replaced by the given one, or the exception raised;
  \<^item> \<open>et\<close>: the XML reader of \<open>parse_wms\<close>;
  \<^item> \<open>iter_set\<close>: the order in which Python iterates a set of strings.
\<close>

record wms_env =
  validators_url :: "string \<Rightarrow> bool"
  urlparse_query :: "string \<Rightarrow> error + string"
  unquote :: "string \<Rightarrow> string"
  requests_get :: "string \<Rightarrow> request \<Rightarrow> error + string"
  et :: "string \<Rightarrow> xml option"
  iter_set :: "string list \<Rightarrow> string list"

text \<open>
  The result of a run: the message lists as the run leaves them, the GetCapabilities
  requests it issued in order, and the exception that left the function, if one did.
\<close>

record outcome =
  messages :: msgs
  requests :: "request list"
  raised :: "error option"

text \<open>
  \<open>urllib.parse.parse_qsl(qs)\<close> with its default arguments: fields are separated by
  \<open>&\<close>, an empty field is skipped, a field without \<open>=\<close> is skipped
  (\<open>strict_parsing=False\<close>), and so is a field whose value is empty
  (\<open>keep_blank_values=False\<close>); in name and value \<open>+\<close> becomes a space before
  percent-decoding.
\<close>

definition plus_to_space :: "string \<Rightarrow> string" where
  "plus_to_space s = map (\<lambda>c. if c = CHR ''+'' then CHR '' '' else c) s"

definition qsl_field :: "(string \<Rightarrow> string) \<Rightarrow> string \<Rightarrow> (string \<times> string) list" where
  "qsl_field unq name_value =
     (if name_value = [] then []
      else (case split_first CHR ''='' name_value of
              [n, v] \<Rightarrow> if v \<noteq> [] then [(unq (plus_to_space n), unq (plus_to_space v))] else []
            | _ \<Rightarrow> []))"

definition parse_qsl :: "(string \<Rightarrow> string) \<Rightarrow> string \<Rightarrow> (string \<times> string) list" where
  "parse_qsl unq qs = concat (map (qsl_field unq) (split_on CHR ''&'' qs))"

text \<open>\<open>for k, v in parse_qsl(u.query): wms_args[k.lower()] = v\<close>.\<close>

definition wms_args_of :: "(string \<times> string) list \<Rightarrow> (string \<rightharpoonup> string)" where
  "wms_args_of kvs = foldl (\<lambda>wms_args (k, v). wms_args(lower k \<mapsto> v)) Map.empty kvs"

text \<open>The messages of the first two checks, on the URL as a whole.\<close>

definition url_checks :: "wms_env \<Rightarrow> string \<Rightarrow> string list" where
  "url_checks env wms_url =
     (if \<not> validators_url env (filter (\<lambda>c. c \<noteq> CHR ''{'' \<and> c \<noteq> CHR ''}'') wms_url)
      then [''URL validation error: '' @ wms_url] else []) @
     (let missingparams =
            filter (\<lambda>p. \<not> contains p wms_url) [''{proj}'', ''{bbox}'', ''{width}'', ''{height}'']
      in if length missingparams > 0
         then [''The following values are missing in the URL: '' @ join '','' missingparams]
         else [])"

text \<open>The set \<open>missing_request_parameters\<close>, in insertion order.\<close>

definition missing_request_parameters :: "(string \<rightharpoonup> string) \<Rightarrow> string list" where
  "missing_request_parameters wms_args =
     (let missing = filter (\<lambda>request_parameter. wms_args (lower request_parameter) = None)
            [''version'', ''request'', ''layers'', ''bbox'', ''width'', ''height'', ''format'']
      in if wms_args ''version'' = Some ''1.3.0''
         then (if wms_args ''crs'' = None then set_add ''crs'' missing else missing)
         else if wms_args ''version'' \<noteq> None \<and> \<not> wms_args ''version'' = Some ''1.3.0''
         then (if wms_args ''srs'' = None then set_add ''srs'' missing else missing)
         else missing)"

definition get_capabilities_args :: "(string \<rightharpoonup> string) \<Rightarrow> string option \<Rightarrow> request" where
  "get_capabilities_args wms_args wms_version =
     [(''service'', ''WMS''), (''request'', ''GetCapabilities'')] @
     (case wms_version of None \<Rightarrow> [] | Some v \<Rightarrow> [(''version'', v)]) @
     (case wms_args ''map'' of None \<Rightarrow> [] | Some m \<Rightarrow> [(''map'', m)])"

text \<open>The body of the \<open>try\<close> in the negotiation loop, for one version.\<close>

definition attempt :: "wms_env \<Rightarrow> string \<Rightarrow> (string \<rightharpoonup> string) \<Rightarrow> string option \<Rightarrow> error + wms" where
  "attempt env wms_url wms_args wmsversion =
     (case requests_get env wms_url (get_capabilities_args wms_args wmsversion) of
        Inl e \<Rightarrow> Inl e
      | Inr xml \<Rightarrow> parse_wms (et env) xml)"

definition wmsversion_str :: "string option \<Rightarrow> string" where
  "wmsversion_str wmsversion = (case wmsversion of None \<Rightarrow> ''-'' | Some v \<Rightarrow> v)"

definition wms_versions :: "string option list" where
  "wms_versions = [None, Some ''1.3.0'', Some ''1.1.1'', Some ''1.1.0'', Some ''1.0.0'']"

text \<open>
  The loop \<open>for wmsversion in [None, '1.3.0', '1.1.1', '1.1.0', '1.0.0']\<close>, with the
  requests issued so far and the list \<open>exceptions\<close>; the result carries \<open>wms\<close>.
\<close>

fun negotiate ::
  "wms_env \<Rightarrow> string \<Rightarrow> (string \<rightharpoonup> string) \<Rightarrow> string option list \<Rightarrow>
   request list \<Rightarrow> string list \<Rightarrow> request list \<times> string list \<times> wms option" where
  "negotiate env wms_url wms_args [] reqs exceptions = (reqs, exceptions, None)"
| "negotiate env wms_url wms_args (wmsversion # vs) reqs exceptions =
     (case attempt env wms_url wms_args wmsversion of
        Inl e \<Rightarrow>
          negotiate env wms_url wms_args vs
            (reqs @ [get_capabilities_args wms_args wmsversion])
            (exceptions @ [''WMS '' @ wmsversion_str wmsversion @ '': Error: '' @ str_error e])
      | Inr wms \<Rightarrow> (reqs @ [get_capabilities_args wms_args wmsversion], exceptions, Some wms))"

text \<open>The layer check: one message for the names that are not keys of \<open>wms['layers']\<close>.\<close>

definition check_layers :: "wms \<Rightarrow> string \<Rightarrow> string list" where
  "check_layers wms layer_arg =
     (let not_found_layers =
            filter (\<lambda>layer_name. layers (store wms) (Some layer_name) = None)
                   (split_on CHR '','' layer_arg)
      in if length not_found_layers > 0
         then [''Layers '' @ sq @ join '','' not_found_layers @ sq
               @ '' not advertised by WMS GetCapabilities request.'']
         else [])"

text \<open>The style check, for the value \<open>style\<close> of the \<open>styles\<close> parameter.\<close>

definition check_styles :: "wms \<Rightarrow> string \<Rightarrow> string \<Rightarrow> string list" where
  "check_styles wms layer_arg style =
     (let layers_list = split_on CHR '','' layer_arg
      in if \<not> (style = ''default'' \<or> style = [] \<or>
                style = replicate (length layers_list) CHR '','')
         then (let styles_list = split_on CHR '','' style
               in if \<not> length styles_list = length layers_list
                  then [''Not the same number of styles and layers.'']
                  else concat (map (\<lambda>(layer_name, style).
                         (case layers (store wms) (Some layer_name) of
                            None \<Rightarrow> []
                          | Some l \<Rightarrow>
                              if length style > 0 \<and> Styles l (Some style) = None
                              then [''Layer '' @ sq @ layer_name @ sq
                                    @ '' does not support style '' @ sq @ style @ sq]
                              else []))
                       (zip layers_list styles_list)))
         else [])"

text \<open>The CRS check.\<close>

definition check_crs :: "wms_env \<Rightarrow> source \<Rightarrow> wms \<Rightarrow> string \<Rightarrow> string list" where
  "check_crs env src wms layer_arg =
     (case available_projections src of
        None \<Rightarrow> [''source is missing '' @ sq @ ''available_projections'' @ sq @ '' element.'']
      | Some projections \<Rightarrow>
          concat (map (\<lambda>layer_name.
            (case layers (store wms) (Some layer_name) of
               None \<Rightarrow> []
             | Some l \<Rightarrow>
                 (let advertised = sets (store wms) ! CRS l;
                      not_supported_crs =
                        foldl (\<lambda>acc crs. if upper crs \<notin> set advertised then set_add crs acc else acc)
                              [] projections
                  in if length not_supported_crs > 0
                     then [''CRS '' @ sq @ join '','' (iter_set env not_supported_crs) @ sq
                           @ '' not in: '' @ join '','' (iter_set env advertised)]
                     else [])))
          (split_on CHR '','' layer_arg)))"

text \<open>
  The join of \<open>wms['formats']\<close> with \<open>', '\<close>: a \<open>TypeError\<close> at the first item that is
  \<open>None\<close>.
\<close>

fun join_formats :: "nat \<Rightarrow> string option list \<Rightarrow> error + string list" where
  "join_formats i [] = Inr []"
| "join_formats i (None # fs) =
     Inl (TypeError (''sequence item '' @ str_nat i @ '': expected str instance, NoneType found''))"
| "join_formats i (Some f # fs) =
     (case join_formats (Suc i) fs of Inl e \<Rightarrow> Inl e | Inr xs \<Rightarrow> Inr (f # xs))"

text \<open>
  What follows a successful negotiation: the layer, style and CRS checks, the comparison
  of versions and the format check.
\<close>

definition cross_checks ::
  "wms_env \<Rightarrow> source \<Rightarrow> (string \<rightharpoonup> string) \<Rightarrow> wms \<Rightarrow> request list \<Rightarrow> msgs \<Rightarrow> outcome" where
  "cross_checks env src wms_args wms reqs m =
     (let m1 = (case wms_args ''layers'' of
                  None \<Rightarrow> m
                | Some layer_arg \<Rightarrow>
                    m\<lparr>error_msgs := error_msgs m
                         @ check_layers wms layer_arg
                         @ (case wms_args ''styles'' of
                              None \<Rightarrow> []
                            | Some style \<Rightarrow> check_styles wms layer_arg style)
                         @ check_crs env src wms layer_arg\<rparr>)
      in case wms_args ''version'' of
           None \<Rightarrow> \<lparr>messages = m1, requests = reqs, raised = Some (KeyError ''version'')\<rparr>
         | Some v \<Rightarrow>
             (let m2 = (if str_less v (version wms)
                        then m1\<lparr>warning_msgs := warning_msgs m1
                               @ [''Query requests WMS version '' @ sq @ v @ sq
                                  @ '', server supports '' @ sq @ version wms @ sq]\<rparr>
                        else m1)
              in case wms_args ''format'' of
                   None \<Rightarrow> \<lparr>messages = m2, requests = reqs, raised = Some (KeyError ''format'')\<rparr>
                 | Some imagery_format \<Rightarrow>
                     (case join_formats 0 (formats wms) of
                        Inl e \<Rightarrow> \<lparr>messages = m2, requests = reqs, raised = Some e\<rparr>
                      | Inr fs \<Rightarrow>
                          (let imagery_formats_str = join (sq @ '', '' @ sq) fs;
                               m3 = (if Some imagery_format \<notin> set (formats wms)
                                     then m2\<lparr>error_msgs := error_msgs m2
                                            @ [''Format '' @ sq @ imagery_format @ sq @ '' not in ''
                                               @ sq @ imagery_formats_str @ sq @ ''.'']\<rparr>
                                     else m2);
                               m4 = (if \<not> contains ''jpeg'' imagery_format
                                        \<and> contains ''jpeg'' imagery_formats_str
                                     then m3\<lparr>warning_msgs := warning_msgs m3
                                            @ [''Server supports jpeg, but '' @ sq @ imagery_format
                                               @ sq @ '' is used. (Server supports: '' @ sq
                                               @ imagery_formats_str @ sq @ '')'']\<rparr>
                                     else m3)
                           in \<lparr>messages = m4, requests = reqs, raised = None\<rparr>))))"

text \<open>\<open>check_wms\<close> from the point where \<open>wms_args\<close> is built.\<close>

definition check_wms_args ::
  "wms_env \<Rightarrow> source \<Rightarrow> (string \<rightharpoonup> string) \<Rightarrow> msgs \<Rightarrow> outcome" where
  "check_wms_args env src wms_args m =
     (let missing = missing_request_parameters wms_args
      in if length missing > 0
         then \<lparr>messages = m\<lparr>error_msgs := error_msgs m
                   @ [''Parameter '' @ sq @ join '','' (iter_set env missing) @ sq
                      @ '' is missing in url.'']\<rparr>,
               requests = [], raised = None\<rparr>
         else
           (let m1 = (if wms_args ''styles'' = None
                      then m\<lparr>warning_msgs := warning_msgs m
                             @ [''Parameter '' @ sq @ ''styles'' @ sq @ '' is missing in url. ''
                                @ sq @ ''STYLES='' @ sq
                                @ '' can be used to request default style.'']\<rparr>
                      else m)
            in case negotiate env (url src) wms_args wms_versions [] [] of
                 (reqs, exceptions, None) \<Rightarrow>
                   \<lparr>messages = m1\<lparr>error_msgs := error_msgs m1 @ exceptions\<rparr>,
                    requests = reqs, raised = None\<rparr>
               | (reqs, exceptions, Some wms) \<Rightarrow> cross_checks env src wms_args wms reqs m1))"

definition check_wms :: "wms_env \<Rightarrow> source \<Rightarrow> msgs \<Rightarrow> outcome" where
  "check_wms env src m =
     (let wms_url = url src;
          m1 = m\<lparr>error_msgs := error_msgs m @ url_checks env wms_url\<rparr>
      in case urlparse_query env wms_url of
           Inl e \<Rightarrow> \<lparr>messages = m1, requests = [], raised = Some e\<rparr>
         | Inr query \<Rightarrow>
             check_wms_args env src (wms_args_of (parse_qsl (unquote env) query)) m1)"

section \<open>The tile endpoint validator: \<open>check_tms\<close>\<close>

text \<open>
  A Python number.  \<open>2 ** e\<close> on integers is an integer for \<open>e \<ge> 0\<close> and a float for
  \<open>e < 0\<close>; \<open>PyFloat q\<close> is a float of value \<open>q\<close>, as long as the operations on it are exact
  (they are on the halves and small integers met here).
\<close>

datatype pynum = PyInt int | PyFloat rat

definition py_pow2 :: "int \<Rightarrow> pynum" where
  "py_pow2 e = (if 0 \<le> e then PyInt (2 ^ nat e) else PyFloat (1 / 2 ^ nat (- e)))"

fun py_minus :: "pynum \<Rightarrow> int \<Rightarrow> pynum" where
  "py_minus (PyInt a) b = PyInt (a - b)"
| "py_minus (PyFloat q) b = PyFloat (q - of_int b)"

text \<open>A value of the dictionary \<open>parameters\<close>.\<close>

datatype pyval = Num int | Str string

text \<open>
  What \<open>check_tms\<close> calls and does not define:
  \<^item> \<open>shape_error\<close>: the exception \<open>shape(...)\<close> or \<open>representative_point()\<close> raises, if any;
  \<^item> \<open>tile\<close>: for a zoom, \<open>x\<close> and \<open>y\<close> of \<open>mercantile.tile(centroid.x, centroid.y, zoom)\<close>,
    or the exception raised;
  \<^item> \<open>str_float\<close>: \<open>str\<close> of a float;
  \<^item> \<open>format_url\<close>: the call \<open>query_url.format\<close> with the dictionary \<open>parameters\<close>, or the exception
    raised;
  \<^item> \<open>test_url\<close>: the outcome of \<open>test_url(url)\<close> when it is the \<open>n\<close>-th request of the run
    (counted from 0): the network may answer the same URL differently later.
\<close>

record tms_env =
  shape_error :: "error option"
  tile :: "int \<Rightarrow> error + int \<times> int"
  str_float :: "rat \<Rightarrow> string"
  format_url :: "string \<Rightarrow> (string \<times> pyval) list \<Rightarrow> error + string"
  test_url :: "nat \<Rightarrow> string \<Rightarrow> bool"

text \<open>The variables \<open>tested_zooms\<close> (a set), \<open>zoom_success\<close> and \<open>zoom_failures\<close>.\<close>

record tstate =
  tested_zooms :: "int list"
  zoom_success :: "int list"
  zoom_failures :: "int list"

definition py_str :: "tms_env \<Rightarrow> pynum \<Rightarrow> string" where
  "py_str env y = (case y of PyInt i \<Rightarrow> str_int i | PyFloat q \<Rightarrow> str_float env q)"

text \<open>The vertical coordinate \<open>test_zoom\<close> substitutes, for the row \<open>tile.y\<close>.\<close>

definition y_coord :: "string \<Rightarrow> int \<Rightarrow> int \<Rightarrow> pynum" where
  "y_coord tms_url zoom tile_y =
     (if contains ''{-y}'' tms_url then py_minus (py_minus (py_pow2 zoom) 1) tile_y
      else if contains ''{!y}'' tms_url then py_minus (py_minus (py_pow2 (zoom - 1)) 1) tile_y
      else PyInt tile_y)"

text \<open>\<open>query_url\<close> before \<open>format\<close>.\<close>

definition query_url :: "tms_env \<Rightarrow> string \<Rightarrow> int \<Rightarrow> int \<Rightarrow> string" where
  "query_url env tms_url zoom tile_y =
     (if contains ''{-y}'' tms_url
      then replace_str ''{-y}'' (py_str env (y_coord tms_url zoom tile_y)) tms_url
      else if contains ''{!y}'' tms_url
      then replace_str ''{!y}'' (py_str env (y_coord tms_url zoom tile_y)) tms_url
      else replace_str ''{y}'' (str_int tile_y) tms_url)"

text \<open>
  The request of \<open>test_zoom(zoom)\<close> as the \<open>n\<close>-th request of the run: the tile, the URL
  and \<open>test_url\<close>.
\<close>

definition probe ::
  "tms_env \<Rightarrow> string \<Rightarrow> (string \<times> pyval) list \<Rightarrow> nat \<Rightarrow> int \<Rightarrow> error + bool" where
  "probe env tms_url parameters n zoom =
     (case tile env zoom of
        Inl e \<Rightarrow> Inl e
      | Inr (tile_x, tile_y) \<Rightarrow>
          (case format_url env (query_url env tms_url zoom tile_y)
                  (parameters @ [(''x'', Num tile_x), (''zoom'', Num zoom)]) of
             Inl e \<Rightarrow> Inl e
           | Inr u \<Rightarrow> Inr (test_url env n u)))"

definition test_zoom ::
  "tms_env \<Rightarrow> string \<Rightarrow> (string \<times> pyval) list \<Rightarrow> int \<Rightarrow> tstate \<Rightarrow> error + bool \<times> tstate" where
  "test_zoom env tms_url parameters zoom st =
     (let st1 = st\<lparr>tested_zooms := set_add zoom (tested_zooms st)\<rparr>
      in case probe env tms_url parameters
                (length (zoom_success st1) + length (zoom_failures st1)) zoom of
           Inl e \<Rightarrow> Inl e
         | Inr True \<Rightarrow> Inr (True, st1\<lparr>zoom_success := zoom_success st1 @ [zoom]\<rparr>)
         | Inr False \<Rightarrow> Inr (False, st1\<lparr>zoom_failures := zoom_failures st1 @ [zoom]\<rparr>))"

text \<open>
  The loops \<open>for zoom in range(...): if zoom not in tested_zooms: if test_zoom(zoom): break\<close>,
  over the zooms of the range in order.
\<close>

fun probe_loop ::
  "tms_env \<Rightarrow> string \<Rightarrow> (string \<times> pyval) list \<Rightarrow> int list \<Rightarrow> tstate \<Rightarrow> error + tstate" where
  "probe_loop env tms_url parameters [] st = Inr st"
| "probe_loop env tms_url parameters (zoom # zooms) st =
     (if zoom \<notin> set (tested_zooms st)
      then (case test_zoom env tms_url parameters zoom st of
              Inl e \<Rightarrow> Inl e
            | Inr (True, st') \<Rightarrow> Inr st'
            | Inr (False, st') \<Rightarrow> probe_loop env tms_url parameters zooms st')
      else probe_loop env tms_url parameters zooms st)"

text \<open>\<open>range(min_zoom + 1, min(min_zoom + 4, max_zoom))\<close>.\<close>

definition range_up :: "int \<Rightarrow> int \<Rightarrow> int list" where
  "range_up min_z max_z = [min_z + 1 .. min (min_z + 4) max_z - 1]"

text \<open>\<open>range(max_zoom, max(max_zoom - 4, min_zoom), -1)\<close>.\<close>

definition range_down :: "int \<Rightarrow> int \<Rightarrow> int list" where
  "range_down min_z max_z = rev [max (max_z - 4) min_z + 1 .. max_z]"

text \<open>The test of \<open>min_zoom\<close> with its loop, and the test of \<open>max_zoom\<close> with its loop.\<close>

definition probe_min ::
  "tms_env \<Rightarrow> string \<Rightarrow> (string \<times> pyval) list \<Rightarrow> int \<Rightarrow> int \<Rightarrow> tstate \<Rightarrow> error + tstate" where
  "probe_min env tms_url parameters min_z max_z st =
     (case test_zoom env tms_url parameters min_z st of
        Inl e \<Rightarrow> Inl e
      | Inr (True, st') \<Rightarrow> Inr st'
      | Inr (False, st') \<Rightarrow> probe_loop env tms_url parameters (range_up min_z max_z) st')"

definition probe_max ::
  "tms_env \<Rightarrow> string \<Rightarrow> (string \<times> pyval) list \<Rightarrow> int \<Rightarrow> int \<Rightarrow> tstate \<Rightarrow> error + tstate" where
  "probe_max env tms_url parameters min_z max_z st =
     (case test_zoom env tms_url parameters max_z st of
        Inl e \<Rightarrow> Inl e
      | Inr (True, st') \<Rightarrow> Inr st'
      | Inr (False, st') \<Rightarrow> probe_loop env tms_url parameters (range_down min_z max_z) st')"

definition probe_zooms ::
  "tms_env \<Rightarrow> string \<Rightarrow> (string \<times> pyval) list \<Rightarrow> int \<Rightarrow> int \<Rightarrow> error + tstate" where
  "probe_zooms env tms_url parameters min_z max_z =
     (case probe_min env tms_url parameters min_z max_z
             \<lparr>tested_zooms = [], zoom_success = [], zoom_failures = []\<rparr> of
        Inl e \<Rightarrow> Inl e
      | Inr st \<Rightarrow> probe_max env tms_url parameters min_z max_z st)"

text \<open>The message about the zooms tested.\<close>

definition classify :: "tstate \<Rightarrow> msgs \<Rightarrow> msgs" where
  "classify st m =
     (let tested_str = join '','' (map str_int (sort (tested_zooms st)))
      in if length (zoom_failures st) = 0 \<and> length (zoom_success st) > 0
         then m\<lparr>good_msgs := good_msgs m
                @ [''Zoom levels reachable. (Tested: '' @ tested_str @ '')'']\<rparr>
         else if length (zoom_failures st) > 0 \<and> length (zoom_success st) > 0
         then m\<lparr>error_msgs := error_msgs m
                @ [''Zoom level '' @ join '','' (map str_int (sort (zoom_failures st)))
                   @ '' not reachable. (Tested: '' @ tested_str @ '')'']\<rparr>
         else m\<lparr>error_msgs := error_msgs m
                @ [''No zoom level reachable. (Tested: '' @ tested_str @ '')'']\<rparr>)"

text \<open>
  \<open>re.search(r'switch:?([^}]*)', tms_url)\<close>: the first \<open>switch\<close>, a colon when one
  follows, and everything up to the next closing brace.  The result is \<open>group(0)\<close> and
  \<open>group(1)\<close>.
\<close>

fun after_first :: "string \<Rightarrow> string \<Rightarrow> string option" where
  "after_first sub [] = (if sub = [] then Some [] else None)"
| "after_first sub (c # cs) =
     (if take (length sub) (c # cs) = sub then Some (drop (length sub) (c # cs))
      else after_first sub cs)"

definition switch_match :: "string \<Rightarrow> (string \<times> string) option" where
  "switch_match tms_url =
     (case after_first ''switch'' tms_url of
        None \<Rightarrow> None
      | Some rest \<Rightarrow>
          (let colon = (if take 1 rest = '':'' then '':'' else []);
               group1 = takeWhile (\<lambda>c. c \<noteq> CHR ''}'') (drop (length colon) rest)
           in Some (''switch'' @ colon @ group1, group1)))"

definition exception_msg :: "error \<Rightarrow> msgs \<Rightarrow> msgs" where
  "exception_msg e m = m\<lparr>error_msgs := error_msgs m @ [''Exception: '' @ str_error e]\<rparr>"

definition check_tms :: "tms_env \<Rightarrow> source \<Rightarrow> msgs \<Rightarrow> msgs" where
  "check_tms env src m =
     (case shape_error env of
        Some e \<Rightarrow> exception_msg e m
      | None \<Rightarrow>
          if contains ''{z}'' (url src)
          then m\<lparr>error_msgs := error_msgs m @ [''{z} found instead of {zoom} in tile url'']\<rparr>
          else if contains ''{apikey}'' (url src)
          then m\<lparr>warning_msgs := warning_msgs m
                 @ [''Not possible to check URL, apikey is required.'']\<rparr>
          else
            (case (if contains ''{switch:'' (url src)
                   then (case switch_match (url src) of
                           None \<Rightarrow> Inl (AttributeError (sq @ ''NoneType'' @ sq
                                      @ '' object has no attribute '' @ sq @ ''group'' @ sq))
                         | Some (group0, group1) \<Rightarrow>
                             Inr (replace_str group0 ''switch'' (url src),
                                  [(''switch'', Str (hd (split_on CHR '','' group1)))]))
                   else Inr (url src, [])) of
               Inl e \<Rightarrow> exception_msg e m
             | Inr (tms_url, parameters) \<Rightarrow>
                 (let min_z = (case min_zoom src of None \<Rightarrow> 0 | Some z \<Rightarrow> z);
                      max_z = (case max_zoom src of None \<Rightarrow> 22 | Some z \<Rightarrow> z)
                  in case probe_zooms env tms_url parameters min_z max_z of
                       Inl e \<Rightarrow> exception_msg e m
                     | Inr st \<Rightarrow> classify st m)))"

section \<open>Notions and example inputs of the properties\<close>

subsection \<open>The capability parser\<close>

text \<open>The error conditions of \<open>parse_wms\<close>, by the names the specification gives them.\<close>

definition ParseError :: error where
  "ParseError = RuntimeError ''Could not parse XML.''"

definition ServiceError :: error where
  "ServiceError = RuntimeError ''WMS service exception''"

definition ProtocolError :: "string \<Rightarrow> error" where
  "ProtocolError root_tag = RuntimeError (''No Capabilities Element present: Root tag: '' @ root_tag)"

definition VersionError :: error where
  "VersionError = RuntimeError ''WMS version cannot be identified.''"

text \<open>The local name \<open>parse_wms\<close> compares, and the attributes it reads.\<close>

definition root_tag :: "xml \<Rightarrow> string" where
  "root_tag r = rpartition_last CHR ''}'' (tag (strip_ns r))"

definition root_version :: "xml \<Rightarrow> string option" where
  "root_version r = map_of (attrib (strip_ns r)) ''version''"

text \<open>
  A layer element that \<open>parse_layer\<close> gets through: every \<open>CRS\<close> and \<open>SRS\<close> child has a
  text, every \<open>Style\<close> child has a \<open>Name\<close> child, and so for its \<open>Layer\<close> children.
\<close>

fun layer_ok :: "xml \<Rightarrow> bool" where
  "layer_ok (Element t a x cs) =
     ((\<forall>e \<in> set cs. tag e \<in> {''CRS'', ''SRS''} \<longrightarrow> text_of e \<noteq> None) \<and>
      (\<forall>e \<in> set cs. tag e = ''Style'' \<longrightarrow> find_child ''Name'' e \<noteq> None) \<and>
      (\<forall>c \<in> set cs. tag c = ''Layer'' \<longrightarrow> layer_ok c))"

subsection \<open>Example documents\<close>

definition el :: "string \<Rightarrow> string \<Rightarrow> xml" where
  "el t x = Element t [] (Some x) []"

text \<open>
  Two top-level layers under \<open>Capability\<close>: \<open>A\<close> declares EPSG:4326 and \<open>B\<close> declares
  EPSG:3857.
\<close>

definition two_top_layers :: xml where
  "two_top_layers =
     Element ''WMS_Capabilities'' [(''version'', ''1.3.0'')] None
       [Element ''Capability'' [] None
          [Element ''Layer'' [] None [el ''Name'' ''A'', el ''CRS'' ''EPSG:4326''],
           Element ''Layer'' [] None [el ''Name'' ''B'', el ''CRS'' ''EPSG:3857'']]]"

definition two_top_layers_reader :: "string \<Rightarrow> xml option" where
  "two_top_layers_reader s = Some two_top_layers"

text \<open>One layer \<open>base\<close> with CRS EPSG:3857 under a namespaced root.\<close>

definition base_doc :: xml where
  "base_doc =
     Element ''{http://www.opengis.net/wms}WMS_Capabilities'' [(''version'', ''1.3.0'')] None
       [Element ''{http://www.opengis.net/wms}Capability'' [] None
          [Element ''{http://www.opengis.net/wms}Layer'' [] None
             [el ''{http://www.opengis.net/wms}Name'' ''base'',
              el ''{http://www.opengis.net/wms}CRS'' ''EPSG:3857'']]]"

definition base_reader :: "string \<Rightarrow> xml option" where
  "base_reader s = Some base_doc"

text \<open>A capabilities document whose only layer has an empty \<open>CRS\<close> element.\<close>

definition empty_crs_doc :: xml where
  "empty_crs_doc =
     Element ''WMS_Capabilities'' [(''version'', ''1.3.0'')] None
       [Element ''Capability'' [] None
          [Element ''Layer'' [] None [el ''Name'' ''base'', Element ''CRS'' [] None []]]]"

definition empty_crs_reader :: "string \<Rightarrow> xml option" where
  "empty_crs_reader s = Some empty_crs_doc"

subsection \<open>Notions the claims about \<open>check_wms\<close> use\<close>



text \<open>An attempt of the negotiation that fails, and the text the loop records for it.\<close>

definition attempt_fails :: "wms_env \<Rightarrow> string \<Rightarrow> (string \<rightharpoonup> string) \<Rightarrow> string option \<Rightarrow> bool" where
  "attempt_fails env wms_url wms_args v = isl (attempt env wms_url wms_args v)"

definition attempt_error_text ::
  "wms_env \<Rightarrow> string \<Rightarrow> (string \<rightharpoonup> string) \<Rightarrow> string option \<Rightarrow> string" where
  "attempt_error_text env wms_url wms_args v =
     ''WMS '' @ wmsversion_str v @ '': Error: '' @ str_error (projl (attempt env wms_url wms_args v))"

text \<open>The warning about a missing \<open>styles\<close> parameter, when it is due.\<close>

definition styles_warning :: "(string \<rightharpoonup> string) \<Rightarrow> string list" where
  "styles_warning wms_args =
     (if wms_args ''styles'' = None
      then [''Parameter '' @ sq @ ''styles'' @ sq @ '' is missing in url. '' @ sq @ ''STYLES=''
            @ sq @ '' can be used to request default style.'']
      else [])"

definition missing_parameter_msg :: "wms_env \<Rightarrow> (string \<rightharpoonup> string) \<Rightarrow> string" where
  "missing_parameter_msg env wms_args =
     ''Parameter '' @ sq @ join '','' (iter_set env (missing_request_parameters wms_args)) @ sq
     @ '' is missing in url.''"

text \<open>The parameters the check requires whatever the version.\<close>

definition mandatory :: "string list" where
  "mandatory = [''version'', ''request'', ''layers'', ''bbox'', ''width'', ''height'', ''format'']"

text \<open>The values of the \<open>styles\<close> parameter the style check passes without looking further.\<close>

definition style_exempt :: "string \<Rightarrow> string \<Rightarrow> bool" where
  "style_exempt layer_arg style =
     (style = ''default'' \<or> style = [] \<or>
      style = replicate (length (split_on CHR '','' layer_arg)) CHR '','')"

definition style_msg :: "string \<Rightarrow> string \<Rightarrow> string" where
  "style_msg layer_name style =
     ''Layer '' @ sq @ layer_name @ sq @ '' does not support style '' @ sq @ style @ sq"

text \<open>The messages of the style check for one pair of the positional pairing.\<close>

definition pair_msgs :: "wms \<Rightarrow> string \<times> string \<Rightarrow> string list" where
  "pair_msgs w p =
     (case p of (l, s) \<Rightarrow>
        (case layers (store w) (Some l) of
           None \<Rightarrow> []
         | Some lay \<Rightarrow> if s \<noteq> [] \<and> Styles lay (Some s) = None then [style_msg l s] else []))"

subsection \<open>Example runs of \<open>check_wms\<close>\<close>

definition no_unquote :: "string \<Rightarrow> string" where
  "no_unquote s = s"

definition in_order :: "string list \<Rightarrow> string list" where
  "in_order xs = xs"

definition any_url_valid :: "string \<Rightarrow> bool" where
  "any_url_valid u = True"

definition no_msgs :: msgs where
  "no_msgs = \<lparr>good_msgs = [], warning_msgs = [], error_msgs = []\<rparr>"

text \<open>
  A capabilities document with one layer \<open>base\<close> (CRS EPSG:3857, no styles) and the
  format \<open>image/png\<close>.
\<close>

definition caps_doc :: xml where
  "caps_doc =
     Element ''WMS_Capabilities'' [(''version'', ''1.3.0'')] None
       [Element ''Capability'' [] None
          [Element ''Request'' [] None
             [Element ''GetMap'' [] None [el ''Format'' ''image/png'']],
           Element ''Layer'' [] None [el ''Name'' ''base'', el ''CRS'' ''EPSG:3857'']]]"

definition caps_reader :: "string \<Rightarrow> xml option" where
  "caps_reader s = (if s = ''caps'' then Some caps_doc else None)"

text \<open>A server that answers every request with that document.\<close>

definition good_server :: "string \<Rightarrow> request \<Rightarrow> error + string" where
  "good_server u req = Inr ''caps''"

text \<open>A server that answers with it only when asked for version 1.1.1.\<close>

definition old_server :: "string \<Rightarrow> request \<Rightarrow> error + string" where
  "old_server u req = (if map_of req ''version'' = Some ''1.1.1'' then Inr ''caps'' else Inr ''<html>'')"

text \<open>A server that cannot be reached.\<close>

definition dead_server :: "string \<Rightarrow> request \<Rightarrow> error + string" where
  "dead_server u req = Inl (OtherError ''Connection refused'')"

text \<open>The query of each example URL is the part after the question mark.\<close>

definition query_of :: "string \<Rightarrow> error + string" where
  "query_of u = Inr (drop 1 (dropWhile (\<lambda>c. c \<noteq> CHR ''?'') u))"

definition env_with :: "(string \<Rightarrow> request \<Rightarrow> error + string) \<Rightarrow> wms_env" where
  "env_with server =
     \<lparr>validators_url = any_url_valid, urlparse_query = query_of, unquote = no_unquote,
      requests_get = server, et = caps_reader, iter_set = in_order\<rparr>"

definition wms_source :: "string \<Rightarrow> source" where
  "wms_source u = \<lparr>url = u, available_projections = Some [''EPSG:3857''],
                   min_zoom = None, max_zoom = None\<rparr>"

text \<open>A complete GetMap query for the layer \<open>base\<close>.\<close>

definition base_query :: string where
  "base_query = ''FORMAT=image/png&VERSION=1.3.0&REQUEST=GetMap&LAYERS=base&STYLES=default&CRS={proj}&WIDTH={width}&HEIGHT={height}&BBOX={bbox}''"

definition base_url :: string where
  "base_url = ''http://x.org/wms?'' @ base_query"

text \<open>The same without \<open>VERSION\<close> and without \<open>SRS\<close> or \<open>CRS\<close>.\<close>

definition no_version_query :: string where
  "no_version_query = ''FORMAT=image/png&REQUEST=GetMap&LAYERS=base&STYLES=default&WIDTH={width}&HEIGHT={height}&BBOX={bbox}&P={proj}''"

definition no_version_url :: string where
  "no_version_url = ''http://x.org/wms?'' @ no_version_query"

text \<open>Two requested layers of which the server advertises only \<open>base\<close>, with two styles.\<close>

definition unmatched_layer_query :: string where
  "unmatched_layer_query = ''FORMAT=image/png&VERSION=1.3.0&REQUEST=GetMap&LAYERS=base,nolayer&STYLES=x,y&CRS={proj}&WIDTH={width}&HEIGHT={height}&BBOX={bbox}''"

definition unmatched_layer_url :: string where
  "unmatched_layer_url = ''http://x.org/wms?'' @ unmatched_layer_query"

text \<open>A capability tree without layers.\<close>

definition empty_wms :: wms where
  "empty_wms = \<lparr>version = ''1.3.0'', store = \<lparr>sets = [[]], layers = Map.empty\<rparr>, formats = []\<rparr>"

subsection \<open>Example runs of \<open>check_tms\<close>\<close>

text \<open>
  A stand-in for \<open>format\<close> that keeps only the zoom, which is enough to tell the requests
  of a run apart; a tile function that is constant; servers given by the zooms they
  answer with status 200.
\<close>

definition zoom_only :: "string \<Rightarrow> (string \<times> pyval) list \<Rightarrow> error + string" where
  "zoom_only u ps =
     (case map_of ps ''zoom'' of Some (Num z) \<Rightarrow> Inr (str_int z) | _ \<Rightarrow> Inl (KeyError ''zoom''))"

definition origin_tile :: "int \<Rightarrow> error + int \<times> int" where
  "origin_tile z = Inr (0, 0)"

definition no_float :: "rat \<Rightarrow> string" where
  "no_float q = ''float''"

definition serves_7_10 :: "nat \<Rightarrow> string \<Rightarrow> bool" where
  "serves_7_10 n u = (u = ''7'' \<or> u = ''10'')"

definition serves_7_9 :: "nat \<Rightarrow> string \<Rightarrow> bool" where
  "serves_7_9 n u = (u = ''7'' \<or> u = ''9'')"

definition serves_all :: "nat \<Rightarrow> string \<Rightarrow> bool" where
  "serves_all n u = True"

definition tms_env_with :: "(nat \<Rightarrow> string \<Rightarrow> bool) \<Rightarrow> tms_env" where
  "tms_env_with server =
     \<lparr>shape_error = None, tile = origin_tile, str_float = no_float, format_url = zoom_only,
      test_url = server\<rparr>"

definition tile_url :: string where
  "tile_url = ''http://t.org/{zoom}/{x}/{y}.png''"

definition tms_source :: "int \<Rightarrow> int \<Rightarrow> source" where
  "tms_source lo hi = \<lparr>url = tile_url, available_projections = None,
                        min_zoom = Some lo, max_zoom = Some hi\<rparr>"

definition no_zooms :: tstate where
  "no_zooms = \<lparr>tested_zooms = [], zoom_success = [], zoom_failures = []\<rparr>"

text \<open>
  The zooms for which a request was made: every call of \<open>test_zoom\<close> appends its zoom to
  one of the two lists.  A state is consistent when no zoom was requested twice and
  \<open>tested_zooms\<close> holds just the zooms requested.
\<close>

definition probed :: "tstate \<Rightarrow> int list" where
  "probed st = zoom_success st @ zoom_failures st"

definition consistent :: "tstate \<Rightarrow> bool" where
  "consistent st = (distinct (probed st) \<and> set (probed st) = set (tested_zooms st))"

section \<open>Properties of the capability parser\<close>

subsection \<open>When the parser gets through\<close>

lemma add_crs_ok:
  "\<forall>e \<in> set es. text_of e \<noteq> None \<Longrightarrow> \<exists>h'. add_crs es a h = Inr h'"
  by (induction es arbitrary: h) auto

lemma new_style_name:
  "find_child ''Name'' e \<noteq> None \<Longrightarrow> map_of (new_style e) ''Name'' \<noteq> None"
  by (auto simp: new_style_def split: option.splits)

lemma add_styles_ok:
  "\<forall>e \<in> set es. find_child ''Name'' e \<noteq> None \<Longrightarrow> \<exists>s'. add_styles es s = Inr s'"
proof (induction es arbitrary: s)
  case Nil
  then show ?case by simp
next
  case (Cons e es)
  then obtain nm where "map_of (new_style e) ''Name'' = Some nm"
    using new_style_name [of e] by auto
  with Cons show ?case by simp
qed

lemma parse_layer_ok:
  "layer_ok l \<Longrightarrow> \<exists>st'. parse_layer l crs stys st = Inr st'"
  "\<forall>c \<in> set ls. tag c = ''Layer'' \<longrightarrow> layer_ok c \<Longrightarrow>
     \<exists>st'. parse_sublayers ls crs stys st = Inr st'"
proof (induction l crs stys st and ls crs stys st rule: parse_layer_parse_sublayers.induct)
  case (1 t a x cs crs styles st)
  let ?el = "Element t a x cs"
  from "1.prems" have "\<forall>e \<in> set (findall ''CRS'' ?el @ findall ''SRS'' ?el). text_of e \<noteq> None"
    by (auto simp: findall_def)
  then obtain h where h: "add_crs (findall ''CRS'' ?el @ findall ''SRS'' ?el) crs (sets st) = Inr h"
    using add_crs_ok by blast
  from "1.prems" have "\<forall>e \<in> set (findall ''Style'' ?el). find_child ''Name'' e \<noteq> None"
    by (auto simp: findall_def)
  then obtain s' where s': "add_styles (findall ''Style'' ?el) (Map.empty ++ styles) = Inr s'"
    using add_styles_ok by blast
  from "1.prems" have sub: "\<forall>c \<in> set cs. tag c = ''Layer'' \<longrightarrow> layer_ok c" by simp
  show ?case
    using "1.IH" [OF refl h s' refl refl sub] h s' by (simp add: Let_def)
next
  case (2 crs styles st)
  then show ?case by simp
next
  case (3 sl sls crs styles st)
  show ?case
  proof (cases "tag sl = ''Layer''")
    case True
    with "3.prems" have "layer_ok sl" by simp
    from "3.IH"(1) [OF True this] obtain st' where
      st': "parse_layer sl (length (sets st)) styles (st\<lparr>sets := sets st @ [sets st ! crs]\<rparr>) = Inr st'"
      by blast
    from "3.prems" have "\<forall>c \<in> set sls. tag c = ''Layer'' \<longrightarrow> layer_ok c" by simp
    from "3.IH"(2) [OF True st' this] show ?thesis using True st' by simp
  next
    case False
    from "3.prems" have "\<forall>c \<in> set sls. tag c = ''Layer'' \<longrightarrow> layer_ok c" by simp
    from "3.IH"(3) [OF False this] show ?thesis using False by simp
  qed
qed

lemma parse_top_layers_ok:
  "\<forall>l \<in> set ts. layer_ok l \<Longrightarrow> \<exists>st'. parse_top_layers ts st = Inr st'"
proof (induction ts arbitrary: st)
  case Nil
  then show ?case by simp
next
  case (Cons t ts)
  then obtain st1 where "parse_layer t 0 Map.empty st = Inr st1"
    using parse_layer_ok(1) [of t 0 Map.empty st] by auto
  with Cons show ?case by simp
qed

subsection \<open>The failures of \<open>parse_wms\<close>\<close>

lemma parse_wms_cases:
  "parse_wms rd xml =
     (case rd xml of
        None \<Rightarrow> Inl ParseError
      | Some r \<Rightarrow>
          if root_tag r \<in> {''ServiceExceptionReport'', ''ServiceException''} then Inl ServiceError
          else if root_tag r \<notin> {''WMT_MS_Capabilities'', ''WMS_Capabilities''}
          then Inl (ProtocolError (root_tag r))
          else (case root_version r of
                  None \<Rightarrow> Inl VersionError
                | Some v \<Rightarrow>
                   (case parse_top_layers (top_layers (strip_ns r))
                           \<lparr>sets = [[]], layers = Map.empty\<rparr> of
                      Inl e \<Rightarrow> Inl e
                    | Inr st \<Rightarrow> Inr \<lparr>version = v, store = st,
                                     formats = map text_of (format_elements (strip_ns r))\<rparr>)))"
  by (simp add: parse_wms_def root_tag_def root_version_def ParseError_def ServiceError_def
      ProtocolError_def VersionError_def Let_def split: option.splits)

lemma errors_distinct:
  "ParseError \<noteq> ServiceError" "ParseError \<noteq> ProtocolError t" "ParseError \<noteq> VersionError"
  "ServiceError \<noteq> ProtocolError t" "ServiceError \<noteq> VersionError"
  "ProtocolError t \<noteq> VersionError"
  "ServiceError \<noteq> ParseError" "ProtocolError t \<noteq> ParseError" "VersionError \<noteq> ParseError"
  "ProtocolError t \<noteq> ServiceError" "VersionError \<noteq> ServiceError"
  "VersionError \<noteq> ProtocolError t"
  by (simp_all add: ParseError_def ServiceError_def ProtocolError_def VersionError_def)

lemma add_crs_error: "add_crs es a h = Inl e \<Longrightarrow> e \<noteq> RuntimeError m"
  by (induction es arbitrary: h) (auto split: option.splits)

lemma add_styles_error: "add_styles es s = Inl e \<Longrightarrow> e \<noteq> RuntimeError m"
  by (induction es arbitrary: s) (auto split: option.splits)

lemma parse_layer_error:
  "parse_layer l crs stys st = Inl e \<Longrightarrow> e \<noteq> RuntimeError m"
  "parse_sublayers ls crs stys st = Inl e \<Longrightarrow> e \<noteq> RuntimeError m"
proof (induction l crs stys st and ls crs stys st rule: parse_layer_parse_sublayers.induct)
  case (1 t a x cs crs styles st)
  then show ?case
    by (auto simp: Let_def split: sum.splits dest: add_crs_error add_styles_error)
next
  case (2 crs styles st)
  then show ?case by simp
next
  case (3 sl sls crs styles st)
  then show ?case
    by (auto split: if_splits sum.splits)
qed

lemma parse_top_layers_error:
  "parse_top_layers ts st = Inl e \<Longrightarrow> e \<noteq> RuntimeError m"
  by (induction ts arbitrary: st) (auto split: sum.splits dest: parse_layer_error(1))

lemma parse_top_layers_not_named:
  assumes "parse_top_layers ts st = Inl e"
  shows "e \<noteq> ParseError" "e \<noteq> ServiceError" "e \<noteq> ProtocolError t" "e \<noteq> VersionError"
  using parse_top_layers_error [OF assms]
  by (simp_all add: ParseError_def ServiceError_def ProtocolError_def VersionError_def)

text \<open>
  C6, as amended.  \<open>parse_wms\<close> fails with the four named errors under exactly the stated
  conditions, tried in this order: the reader rejects the text (\<open>ParseError\<close>); the root's
  local name is \<open>ServiceExceptionReport\<close> or \<open>ServiceException\<close> (\<open>ServiceError\<close>); it is
  none of these and neither \<open>WMT_MS_Capabilities\<close> nor \<open>WMS_Capabilities\<close>
  (\<open>ProtocolError\<close>); it is one of the latter two and the root has no \<open>version\<close>
  attribute (\<open>VersionError\<close>).  On any other input whose layers all have a text in each
  \<open>CRS\<close>/\<open>SRS\<close> element and a \<open>Name\<close> in each \<open>Style\<close>, it returns a tree whose version is
  the root's \<open>version\<close> attribute.
\<close>

theorem parse_wms_failures:
  "(parse_wms rd xml = Inl ParseError \<longleftrightarrow> rd xml = None) \<and>
   (parse_wms rd xml = Inl ServiceError \<longleftrightarrow>
      (\<exists>r. rd xml = Some r \<and> root_tag r \<in> {''ServiceExceptionReport'', ''ServiceException''})) \<and>
   ((\<exists>t. parse_wms rd xml = Inl (ProtocolError t)) \<longleftrightarrow>
      (\<exists>r. rd xml = Some r \<and>
           root_tag r \<notin> {''ServiceExceptionReport'', ''ServiceException'',
                          ''WMT_MS_Capabilities'', ''WMS_Capabilities''})) \<and>
   (parse_wms rd xml = Inl VersionError \<longleftrightarrow>
      (\<exists>r. rd xml = Some r \<and> root_tag r \<in> {''WMT_MS_Capabilities'', ''WMS_Capabilities''} \<and>
           root_version r = None)) \<and>
   (\<forall>r v. rd xml = Some r \<and> root_tag r \<in> {''WMT_MS_Capabilities'', ''WMS_Capabilities''} \<and>
          root_version r = Some v \<and> (\<forall>l \<in> set (top_layers (strip_ns r)). layer_ok l) \<longrightarrow>
          (\<exists>w. parse_wms rd xml = Inr w \<and> version w = v))"
proof (cases "rd xml")
  case None
  then show ?thesis
    by (simp add: parse_wms_cases errors_distinct)
next
  case (Some r)
  let ?res = "parse_top_layers (top_layers (strip_ns r)) \<lparr>sets = [[]], layers = Map.empty\<rparr>"
  consider (service) "root_tag r \<in> {''ServiceExceptionReport'', ''ServiceException''}"
    | (protocol) "root_tag r \<notin> {''ServiceExceptionReport'', ''ServiceException'',
                          ''WMT_MS_Capabilities'', ''WMS_Capabilities''}"
    | (version) "root_tag r \<in> {''WMT_MS_Capabilities'', ''WMS_Capabilities''}"
        "root_version r = None"
    | (layers) v where "root_tag r \<in> {''WMT_MS_Capabilities'', ''WMS_Capabilities''}"
        "root_version r = Some v"
    by (cases "root_version r") auto
  then show ?thesis
  proof cases
    case service
    then have "parse_wms rd xml = Inl ServiceError"
      using Some by (auto simp: parse_wms_cases)
    with service Some show ?thesis
      by (auto simp: errors_distinct)
  next
    case protocol
    then have "parse_wms rd xml = Inl (ProtocolError (root_tag r))"
      using Some by (auto simp: parse_wms_cases)
    with protocol Some show ?thesis
      by (auto simp: errors_distinct)
  next
    case version
    then have "parse_wms rd xml = Inl VersionError"
      using Some by (auto simp: parse_wms_cases)
    with version Some show ?thesis
      by (auto simp: errors_distinct)
  next
    case layers
    then have eq: "parse_wms rd xml =
        (case ?res of Inl e \<Rightarrow> Inl e
         | Inr st \<Rightarrow> Inr \<lparr>version = v, store = st,
                          formats = map text_of (format_elements (strip_ns r))\<rparr>)"
      using Some by (auto simp: parse_wms_cases)
    show ?thesis
    proof (cases ?res)
      case (Inl e)
      then have "parse_wms rd xml = Inl e" using eq by simp
      moreover have "\<not> (\<forall>l \<in> set (top_layers (strip_ns r)). layer_ok l)"
        using parse_top_layers_ok [of "top_layers (strip_ns r)" "\<lparr>sets = [[]], layers = Map.empty\<rparr>"]
          Inl by auto
      ultimately show ?thesis
        using parse_top_layers_not_named [OF Inl] layers Some by auto
    next
      case (Inr st)
      then show ?thesis using eq layers Some by auto
    qed
  qed
qed

theorem parse_wms_failures_witness:
  "parse_wms base_reader ''<xml>'' \<noteq> Inl ParseError \<and>
   base_reader ''<xml>'' = Some base_doc \<and> root_tag base_doc = ''WMS_Capabilities'' \<and>
   root_version base_doc = Some ''1.3.0'' \<and>
   list_all layer_ok (top_layers (strip_ns base_doc)) \<and>
   (\<exists>w. parse_wms base_reader ''<xml>'' = Inr w \<and> version w = ''1.3.0'')"
proof -
  have a: "base_reader ''<xml>'' = Some base_doc" by (simp add: base_reader_def)
  have b: "root_tag base_doc = ''WMS_Capabilities''" by code_simp
  have c: "root_version base_doc = Some ''1.3.0''" by code_simp
  have d: "\<forall>l \<in> set (top_layers (strip_ns base_doc)). layer_ok l" by code_simp
  show ?thesis
    using parse_wms_failures [of base_reader "''<xml>''"] a b c d
    by (auto simp: list_all_iff)
qed

text \<open>
  C6 as stated fails: a well-formed document with root \<open>WMS_Capabilities\<close> and a
  \<open>version\<close> attribute, whose layer has an empty \<open>CRS\<close> element, makes \<open>parse_wms\<close> fail
  with an \<open>AttributeError\<close>, which is none of the four errors, and no tree is returned.
\<close>

theorem parse_wms_other_failure:
  "empty_crs_reader ''<xml>'' = Some empty_crs_doc \<and>
   root_tag empty_crs_doc = ''WMS_Capabilities'' \<and>
   root_version empty_crs_doc = Some ''1.3.0'' \<and>
   map_sum id version (parse_wms empty_crs_reader ''<xml>'') =
     Inl (AttributeError (sq @ ''NoneType'' @ sq @ '' object has no attribute ''
                          @ sq @ ''upper'' @ sq))"
  by code_simp

subsection \<open>Top-level layers share one CRS set\<close>

text \<open>
  C1 at a document with two top-level layers, \<open>A\<close> declaring EPSG:4326 and \<open>B\<close> declaring
  EPSG:3857: both layers end with both values, since both hold the set object of the
  default argument.
\<close>

theorem top_level_layers_share_crs:
  "map_sum str_error (\<lambda>w. (layer_crs w ''A'', layer_crs w ''B''))
     (parse_wms two_top_layers_reader ''<xml>'') =
   Inr (Some [''EPSG:4326'', ''EPSG:3857''], Some [''EPSG:4326'', ''EPSG:3857''])"
  by code_simp

section \<open>Properties of the WMS validator\<close>

subsection \<open>The parameter map\<close>










subsection \<open>The mandatory parameters\<close>

lemma lower_mandatory: "list_all (\<lambda>p. lower p = p) mandatory"
  by code_simp

lemma crs_srs_not_mandatory: "''crs'' \<notin> set mandatory" "''srs'' \<notin> set mandatory"
  by code_simp+

lemma missing_base:
  "p \<in> set (filter (\<lambda>rp. a (lower rp) = None) mandatory) \<longleftrightarrow> p \<in> set mandatory \<and> a p = None"
  using lower_mandatory by (auto simp: list_all_iff)

lemma missing_unfold:
  "missing_request_parameters a =
     (let missing = filter (\<lambda>rp. a (lower rp) = None) mandatory
      in if a ''version'' = Some ''1.3.0''
         then (if a ''crs'' = None then set_add ''crs'' missing else missing)
         else if a ''version'' \<noteq> None \<and> \<not> a ''version'' = Some ''1.3.0''
         then (if a ''srs'' = None then set_add ''srs'' missing else missing)
         else missing)"
  by (simp only: missing_request_parameters_def mandatory_def)

lemma set_set_add: "set (set_add x xs) = insert x (set xs)"
  by (auto simp: set_add_def)

lemma missing_iff:
  "p \<in> set (missing_request_parameters a) \<longleftrightarrow>
     (p \<in> set mandatory \<and> a p = None) \<or>
     (p = ''crs'' \<and> a ''version'' = Some ''1.3.0'' \<and> a ''crs'' = None) \<or>
     (p = ''srs'' \<and> (\<exists>v. a ''version'' = Some v \<and> v \<noteq> ''1.3.0'') \<and> a ''srs'' = None)"
proof (cases "a ''version''")
  case None
  then show ?thesis
    by (simp add: missing_unfold missing_base del: set_filter)
next
  case (Some v)
  show ?thesis
  proof (cases "v = ''1.3.0''")
    case True
    with Some show ?thesis
      using crs_srs_not_mandatory
      by (auto simp: missing_unfold Let_def set_set_add missing_base simp del: set_filter)
  next
    case False
    with Some show ?thesis
      using crs_srs_not_mandatory
      by (auto simp: missing_unfold Let_def set_set_add missing_base simp del: set_filter)
  qed
qed

lemma check_wms_args_missing:
  "missing_request_parameters a \<noteq> [] \<Longrightarrow>
   check_wms_args env src a m =
     \<lparr>messages = m\<lparr>error_msgs := error_msgs m @ [missing_parameter_msg env a]\<rparr>,
      requests = [], raised = None\<rparr>"
  by (simp add: check_wms_args_def missing_parameter_msg_def Let_def)

text \<open>
  C7, as amended.  A parameter is reported missing exactly when it is one of \<open>version\<close>,
  \<open>request\<close>, \<open>layers\<close>, \<open>bbox\<close>, \<open>width\<close>, \<open>height\<close>, \<open>format\<close> and absent from the
  map, or it is \<open>crs\<close>, absent, with \<open>version\<close> equal to \<open>1.3.0\<close>, or it is \<open>srs\<close>,
  absent, with \<open>version\<close> present and different from \<open>1.3.0\<close>.  When any is missing, the
  run appends one message naming them all and returns: no request is issued and nothing
  else is checked.
\<close>

theorem mandatory_parameter_check:
  "(p \<in> set (missing_request_parameters a) \<longleftrightarrow>
     (p \<in> set [''version'', ''request'', ''layers'', ''bbox'', ''width'', ''height'', ''format'']
        \<and> a p = None) \<or>
     (p = ''crs'' \<and> a ''version'' = Some ''1.3.0'' \<and> a ''crs'' = None) \<or>
     (p = ''srs'' \<and> (\<exists>v. a ''version'' = Some v \<and> v \<noteq> ''1.3.0'') \<and> a ''srs'' = None)) \<and>
   (\<forall>q. urlparse_query env (url src) = Inr q \<and>
        missing_request_parameters (wms_args_of (parse_qsl (unquote env) q)) \<noteq> [] \<longrightarrow>
        check_wms env src m =
          \<lparr>messages = m\<lparr>error_msgs := error_msgs m @ url_checks env (url src)
               @ [missing_parameter_msg env (wms_args_of (parse_qsl (unquote env) q))]\<rparr>,
           requests = [], raised = None\<rparr>)"
proof -
  have "check_wms env src m =
          \<lparr>messages = m\<lparr>error_msgs := error_msgs m @ url_checks env (url src)
               @ [missing_parameter_msg env (wms_args_of (parse_qsl (unquote env) q))]\<rparr>,
           requests = [], raised = None\<rparr>"
    if "urlparse_query env (url src) = Inr q"
       "missing_request_parameters (wms_args_of (parse_qsl (unquote env) q)) \<noteq> []" for q
    using that by (simp add: check_wms_def Let_def check_wms_args_missing)
  then show ?thesis
    using missing_iff [of p a] by (simp only: mandatory_def) blast
qed

text \<open>
  A run on a URL without \<open>VERSION\<close>.
\<close>

theorem mandatory_parameter_check_witness:
  "urlparse_query (env_with good_server) (url (wms_source no_version_url)) = Inr no_version_query \<and>
   missing_request_parameters (wms_args_of (parse_qsl no_unquote no_version_query)) = [''version''] \<and>
   check_wms (env_with good_server) (wms_source no_version_url) no_msgs =
     \<lparr>messages = \<lparr>good_msgs = [], warning_msgs = [],
                  error_msgs = [''Parameter '' @ sq @ ''version'' @ sq @ '' is missing in url.'']\<rparr>,
      requests = [], raised = None\<rparr>"
proof -
  let ?E = "env_with good_server"
  let ?S = "wms_source no_version_url"
  let ?a = "wms_args_of (parse_qsl no_unquote no_version_query)"
  have unq: "unquote ?E = no_unquote" by (simp add: env_with_def)
  have q: "urlparse_query ?E (url ?S) = Inr no_version_query" by code_simp
  have mis: "missing_request_parameters ?a = [''version'']" by code_simp
  have uc: "url_checks ?E (url ?S) = []" by code_simp
  have msg: "missing_parameter_msg ?E ?a = ''Parameter '' @ sq @ ''version'' @ sq @ '' is missing in url.''"
    by (simp add: missing_parameter_msg_def mis env_with_def in_order_def)
  have "check_wms ?E ?S no_msgs =
          \<lparr>messages = no_msgs\<lparr>error_msgs := error_msgs no_msgs @ url_checks ?E (url ?S)
               @ [missing_parameter_msg ?E ?a]\<rparr>,
           requests = [], raised = None\<rparr>"
    using mandatory_parameter_check [of "''version''" ?a ?E ?S no_msgs] q mis
    unfolding unq by auto
  then show ?thesis using q mis by (simp add: uc msg no_msgs_def)
qed

text \<open>
  C7 as stated fails: without a \<open>version\<close> parameter, an absent \<open>srs\<close> is not reported;
  the message names \<open>version\<close> alone.
\<close>

theorem srs_not_required_without_version:
  "wms_args_of (parse_qsl no_unquote no_version_query) ''version'' = None \<and>
   wms_args_of (parse_qsl no_unquote no_version_query) ''srs'' = None \<and>
   ''srs'' \<notin> set (missing_request_parameters (wms_args_of (parse_qsl no_unquote no_version_query))) \<and>
   error_msgs (messages (check_wms (env_with good_server) (wms_source no_version_url) no_msgs)) =
     [''Parameter '' @ sq @ ''version'' @ sq @ '' is missing in url.'']"
  by code_simp

subsection \<open>Version negotiation\<close>

lemma negotiate_eq:
 "negotiate env u a vs reqs excs =
   (reqs @ map (get_capabilities_args a) (take (Suc (length (takeWhile (attempt_fails env u a) vs))) vs),
    excs @ map (attempt_error_text env u a) (takeWhile (attempt_fails env u a) vs),
    (case dropWhile (attempt_fails env u a) vs of [] \<Rightarrow> None | v # _ \<Rightarrow> Some (projr (attempt env u a v))))"
proof (induction vs arbitrary: reqs excs)
  case Nil
  then show ?case by simp
next
  case (Cons v vs)
  show ?case
  proof (cases "attempt env u a v")
    case (Inl e)
    then show ?thesis
      using Cons [of "reqs @ [get_capabilities_args a v]"
                     "excs @ [''WMS '' @ wmsversion_str v @ '': Error: '' @ str_error e]"]
      by (simp add: attempt_fails_def attempt_error_text_def)
  next
    case (Inr w)
    then show ?thesis by (simp add: attempt_fails_def)
  qed
qed

lemma requests_cross_checks: "requests (cross_checks env src a w reqs m) = reqs"
  by (simp add: cross_checks_def Let_def split: option.splits sum.splits)

lemma styles_warning_upd:
  "(if a ''styles'' = None
    then m\<lparr>warning_msgs := warning_msgs m
           @ [''Parameter '' @ sq @ ''styles'' @ sq @ '' is missing in url. ''
              @ sq @ ''STYLES='' @ sq @ '' can be used to request default style.'']\<rparr>
    else m) = m\<lparr>warning_msgs := warning_msgs m @ styles_warning a\<rparr>"
  by (cases "a ''styles''") (simp_all add: styles_warning_def)

lemma check_wms_args_negotiated:
  assumes "missing_request_parameters a = []"
  shows "check_wms_args env src a m =
     (case dropWhile (attempt_fails env (url src) a) wms_versions of
        [] \<Rightarrow> \<lparr>messages = m\<lparr>warning_msgs := warning_msgs m @ styles_warning a,
                            error_msgs := error_msgs m
                              @ map (attempt_error_text env (url src) a)
                                  (takeWhile (attempt_fails env (url src) a) wms_versions)\<rparr>,
               requests = map (get_capabilities_args a)
                  (take (Suc (length (takeWhile (attempt_fails env (url src) a) wms_versions)))
                     wms_versions),
               raised = None\<rparr>
      | v # _ \<Rightarrow> cross_checks env src a (projr (attempt env (url src) a v))
                  (map (get_capabilities_args a)
                    (take (Suc (length (takeWhile (attempt_fails env (url src) a) wms_versions)))
                       wms_versions))
                  (m\<lparr>warning_msgs := warning_msgs m @ styles_warning a\<rparr>))"
proof -
  have "check_wms_args env src a m =
      (case negotiate env (url src) a wms_versions [] [] of
         (reqs, exceptions, None) \<Rightarrow>
            \<lparr>messages = m\<lparr>warning_msgs := warning_msgs m @ styles_warning a,
                          error_msgs := error_msgs m @ exceptions\<rparr>,
             requests = reqs, raised = None\<rparr>
       | (reqs, exceptions, Some wms) \<Rightarrow>
            cross_checks env src a wms reqs (m\<lparr>warning_msgs := warning_msgs m @ styles_warning a\<rparr>))"
    unfolding check_wms_args_def Let_def styles_warning_upd using assms
    by (simp split: prod.splits option.splits)
  then show ?thesis
    unfolding negotiate_eq
    by (cases "dropWhile (attempt_fails env (url src) a) wms_versions")
       (simp_all del: dropWhile_eq_Nil_conv)
qed

lemma check_wms_negotiated:
  assumes "urlparse_query env (url src) = Inr q"
      and "a = wms_args_of (parse_qsl (unquote env) q)"
      and "missing_request_parameters a = []"
  shows "check_wms env src m =
     (case dropWhile (attempt_fails env (url src) a) wms_versions of
        [] \<Rightarrow> \<lparr>messages = m\<lparr>warning_msgs := warning_msgs m @ styles_warning a,
                            error_msgs := error_msgs m @ url_checks env (url src)
                              @ map (attempt_error_text env (url src) a)
                                  (takeWhile (attempt_fails env (url src) a) wms_versions)\<rparr>,
               requests = map (get_capabilities_args a)
                  (take (Suc (length (takeWhile (attempt_fails env (url src) a) wms_versions)))
                     wms_versions),
               raised = None\<rparr>
      | v # _ \<Rightarrow> cross_checks env src a (projr (attempt env (url src) a v))
                  (map (get_capabilities_args a)
                    (take (Suc (length (takeWhile (attempt_fails env (url src) a) wms_versions)))
                       wms_versions))
                  (m\<lparr>error_msgs := error_msgs m @ url_checks env (url src),
                     warning_msgs := warning_msgs m @ styles_warning a\<rparr>))"
proof -
  have "check_wms env src m =
      check_wms_args env src a (m\<lparr>error_msgs := error_msgs m @ url_checks env (url src)\<rparr>)"
    using assms(1,2) by (simp add: check_wms_def Let_def)
  then show ?thesis
    unfolding check_wms_args_negotiated [OF assms(3)]
    by (cases "dropWhile (attempt_fails env (url src) a) wms_versions")
       (simp_all del: dropWhile_eq_Nil_conv)
qed

text \<open>
  C2.  Once the mandatory parameters are there, \<open>check_wms\<close> issues its GetCapabilities
  requests for the versions absent, 1.3.0, 1.1.1, 1.1.0, 1.0.0 in this order, up to and
  including the first attempt that does not fail.  When the first two attempts fail and
  the one for 1.1.1 succeeds, exactly three requests are issued.  When all five fail,
  the five error texts are appended to the error messages, in order, and the run returns
  with nothing else checked.
\<close>

theorem version_negotiation:
  assumes "urlparse_query env (url src) = Inr q"
      and "a = wms_args_of (parse_qsl (unquote env) q)"
      and "missing_request_parameters a = []"
  shows "requests (check_wms env src m) =
           map (get_capabilities_args a)
             (take (Suc (length (takeWhile (attempt_fails env (url src) a)
                      [None, Some ''1.3.0'', Some ''1.1.1'', Some ''1.1.0'', Some ''1.0.0''])))
                [None, Some ''1.3.0'', Some ''1.1.1'', Some ''1.1.0'', Some ''1.0.0'']) \<and>
         (attempt_fails env (url src) a None \<and> attempt_fails env (url src) a (Some ''1.3.0'') \<and>
          \<not> attempt_fails env (url src) a (Some ''1.1.1'') \<longrightarrow>
            requests (check_wms env src m) =
              [get_capabilities_args a None, get_capabilities_args a (Some ''1.3.0''),
               get_capabilities_args a (Some ''1.1.1'')]) \<and>
         ((\<forall>v \<in> set [None, Some ''1.3.0'', Some ''1.1.1'', Some ''1.1.0'', Some ''1.0.0''].
              attempt_fails env (url src) a v) \<longrightarrow>
            check_wms env src m =
              \<lparr>messages =
                 m\<lparr>warning_msgs := warning_msgs m @ styles_warning a,
                   error_msgs := error_msgs m @ url_checks env (url src)
                     @ map (attempt_error_text env (url src) a)
                         [None, Some ''1.3.0'', Some ''1.1.1'', Some ''1.1.0'', Some ''1.0.0'']\<rparr>,
               requests = map (get_capabilities_args a)
                   [None, Some ''1.3.0'', Some ''1.1.1'', Some ''1.1.0'', Some ''1.0.0''],
               raised = None\<rparr>)"
proof -
  let ?vs = "[None, Some ''1.3.0'', Some ''1.1.1'', Some ''1.1.0'', Some ''1.0.0'']"
  let ?f = "attempt_fails env (url src) a"
  have vs: "wms_versions = ?vs" by (simp add: wms_versions_def)
  note cw = check_wms_negotiated [OF assms, of m, unfolded vs]
  have reqs: "requests (check_wms env src m) =
      map (get_capabilities_args a) (take (Suc (length (takeWhile ?f ?vs))) ?vs)"
    unfolding cw
    by (cases "dropWhile ?f ?vs")
       (simp_all add: requests_cross_checks del: dropWhile_eq_Nil_conv)
  have three: "requests (check_wms env src m) =
      [get_capabilities_args a None, get_capabilities_args a (Some ''1.3.0''),
       get_capabilities_args a (Some ''1.1.1'')]"
    if "?f None" "?f (Some ''1.3.0'')" "\<not> ?f (Some ''1.1.1'')"
    unfolding reqs using that by simp
  have all: "check_wms env src m =
              \<lparr>messages =
                 m\<lparr>warning_msgs := warning_msgs m @ styles_warning a,
                   error_msgs := error_msgs m @ url_checks env (url src)
                     @ map (attempt_error_text env (url src) a) ?vs\<rparr>,
               requests = map (get_capabilities_args a) ?vs,
               raised = None\<rparr>"
    if "\<forall>v \<in> set ?vs. ?f v"
  proof -
    from that have "takeWhile ?f ?vs = ?vs" "dropWhile ?f ?vs = []"
      by simp_all
    then show ?thesis unfolding cw by simp
  qed
  from reqs three all show ?thesis by blast
qed

text \<open>
  A server that answers with capabilities only when asked for version 1.1.1.
\<close>

theorem version_negotiation_witness:
  "urlparse_query (env_with old_server) (url (wms_source base_url)) = Inr base_query \<and>
   missing_request_parameters (wms_args_of (parse_qsl no_unquote base_query)) = [] \<and>
   attempt_fails (env_with old_server) base_url (wms_args_of (parse_qsl no_unquote base_query)) None \<and>
   attempt_fails (env_with old_server) base_url (wms_args_of (parse_qsl no_unquote base_query))
     (Some ''1.3.0'') \<and>
   \<not> attempt_fails (env_with old_server) base_url (wms_args_of (parse_qsl no_unquote base_query))
     (Some ''1.1.1'') \<and>
   requests (check_wms (env_with old_server) (wms_source base_url) no_msgs) =
     [[(''service'', ''WMS''), (''request'', ''GetCapabilities'')],
      [(''service'', ''WMS''), (''request'', ''GetCapabilities''), (''version'', ''1.3.0'')],
      [(''service'', ''WMS''), (''request'', ''GetCapabilities''), (''version'', ''1.1.1'')]]"
proof -
  let ?E = "env_with old_server"
  let ?a = "wms_args_of (parse_qsl no_unquote base_query)"
  have u: "url (wms_source base_url) = base_url" by (simp add: wms_source_def)
  have unq: "unquote ?E = no_unquote" by (simp add: env_with_def)
  have q: "urlparse_query ?E (url (wms_source base_url)) = Inr base_query" by code_simp
  have mis: "missing_request_parameters ?a = []" by code_simp
  have f1: "attempt_fails ?E base_url ?a None" by code_simp
  have f2: "attempt_fails ?E base_url ?a (Some ''1.3.0'')" by code_simp
  have f3: "\<not> attempt_fails ?E base_url ?a (Some ''1.1.1'')" by code_simp
  have g: "[get_capabilities_args ?a None, get_capabilities_args ?a (Some ''1.3.0''),
            get_capabilities_args ?a (Some ''1.1.1'')] =
     [[(''service'', ''WMS''), (''request'', ''GetCapabilities'')],
      [(''service'', ''WMS''), (''request'', ''GetCapabilities''), (''version'', ''1.3.0'')],
      [(''service'', ''WMS''), (''request'', ''GetCapabilities''), (''version'', ''1.1.1'')]]"
    by code_simp
  have "requests (check_wms ?E (wms_source base_url) no_msgs) =
     [get_capabilities_args ?a None, get_capabilities_args ?a (Some ''1.3.0''),
      get_capabilities_args ?a (Some ''1.1.1'')]"
    using version_negotiation [of ?E "wms_source base_url" base_query ?a no_msgs] q mis f1 f2 f3
    unfolding u unq by blast
  with q mis f1 f2 f3 g show ?thesis by simp
qed

subsection \<open>The style check\<close>

lemma split_two_commas: "split_on CHR '','' '',,'' = [[], [], []]"
  by code_simp

text \<open>
  C5.  With a \<open>layers\<close> parameter of three names, the \<open>styles\<close> value \<open>,,\<close> makes the style
  check emit no message, whatever the names and whatever the server advertises.
\<close>

theorem two_commas_three_layers:
  "length (split_on CHR '','' layer_arg) = 3 \<Longrightarrow> check_styles w layer_arg '',,'' = []"
proof -
  assume len: "length (split_on CHR '','' layer_arg) = 3"
  then obtain l1 l2 l3 where ls: "split_on CHR '','' layer_arg = [l1, l2, l3]"
    by (auto simp: numeral_3_eq_3 length_Suc_conv)
  have rep: "replicate (3::nat) CHR '','' = '',,,''" by (simp add: numeral_3_eq_3)
  show ?thesis
    by (simp add: check_styles_def ls split_two_commas rep split: option.splits)
qed

text \<open>
  Three layers \<open>a\<close>, \<open>b\<close>, \<open>c\<close>.
\<close>

theorem two_commas_three_layers_witness:
  "length (split_on CHR '','' ''a,b,c'') = 3 \<and> check_styles empty_wms ''a,b,c'' '',,'' = []"
proof -
  have l: "length (split_on CHR '','' ''a,b,c'') = 3" by code_simp
  from two_commas_three_layers [OF l, of empty_wms] l show ?thesis by simp
qed

lemma pair_msgs_iff:
  "msg \<in> set (pair_msgs w (l, s)) \<longleftrightarrow>
     (\<exists>lay. layers (store w) (Some l) = Some lay \<and> s \<noteq> [] \<and> Styles lay (Some s) = None \<and>
        msg = style_msg l s)"
  by (cases "layers (store w) (Some l)") (auto simp: pair_msgs_def)

lemma style_pairs:
  "msg \<in> set (concat (map (pair_msgs w) ps)) \<longleftrightarrow>
   (\<exists>l s lay. (l, s) \<in> set ps \<and> layers (store w) (Some l) = Some lay \<and> s \<noteq> [] \<and>
        Styles lay (Some s) = None \<and> msg = style_msg l s)"
proof -
  have "msg \<in> set (concat (map (pair_msgs w) ps)) \<longleftrightarrow>
        (\<exists>l s. (l, s) \<in> set ps \<and> msg \<in> set (pair_msgs w (l, s)))"
    by auto
  then show ?thesis unfolding pair_msgs_iff by blast
qed

lemma check_styles_unfold:
  "check_styles w la st =
     (if style_exempt la st then []
      else if length (split_on CHR '','' st) \<noteq> length (split_on CHR '','' la)
      then [''Not the same number of styles and layers.'']
      else concat (map (pair_msgs w) (zip (split_on CHR '','' la) (split_on CHR '','' st))))"
proof -
  have "pair_msgs w = (\<lambda>(layer_name, style).
                         (case layers (store w) (Some layer_name) of
                            None \<Rightarrow> []
                          | Some l \<Rightarrow>
                              if length style > 0 \<and> Styles l (Some style) = None
                              then [''Layer '' @ sq @ layer_name @ sq
                                    @ '' does not support style '' @ sq @ style @ sq]
                              else []))"
    by (rule ext) (simp add: pair_msgs_def style_msg_def split: prod.splits option.splits)
  then show ?thesis
    by (simp add: check_styles_def style_exempt_def Let_def)
qed

lemma error_msgs_cross_checks:
  "a ''layers'' = Some la \<Longrightarrow> a ''styles'' = Some st \<Longrightarrow>
   \<exists>rest. error_msgs (messages (cross_checks env src a w reqs m)) =
      error_msgs m @ check_layers w la @ check_styles w la st @ rest"
  by (simp add: cross_checks_def Let_def split: option.splits sum.splits)

text \<open>
  C9, as amended.  After a successful negotiation the style check runs whenever the
  \<open>layers\<close> and \<open>styles\<close> parameters are present, whether or not every requested layer
  matched: its messages follow those of the layer check.  It emits nothing for an exempt
  value, the count message when the numbers of styles and layers differ, and otherwise
  one message for exactly those pairs of the positional pairing whose layer is in the
  capability tree's layer mapping and whose non-empty style that layer does not advertise;
  pairs with an unmatched layer are skipped.
\<close>

theorem style_check_scope:
  "(a ''layers'' = Some la \<and> a ''styles'' = Some st \<longrightarrow>
      (\<exists>rest. error_msgs (messages (cross_checks env src a w reqs m)) =
         error_msgs m @ check_layers w la @ check_styles w la st @ rest)) \<and>
   (style_exempt la st \<longrightarrow> check_styles w la st = []) \<and>
   (\<not> style_exempt la st \<and> length (split_on CHR '','' st) \<noteq> length (split_on CHR '','' la) \<longrightarrow>
      check_styles w la st = [''Not the same number of styles and layers.'']) \<and>
   (\<not> style_exempt la st \<and> length (split_on CHR '','' st) = length (split_on CHR '','' la) \<longrightarrow>
      (msg \<in> set (check_styles w la st) \<longleftrightarrow>
         (\<exists>l s lay. (l, s) \<in> set (zip (split_on CHR '','' la) (split_on CHR '','' st)) \<and>
            layers (store w) (Some l) = Some lay \<and> s \<noteq> [] \<and> Styles lay (Some s) = None \<and>
            msg = style_msg l s)))"
proof -
  have 1: "a ''layers'' = Some la \<and> a ''styles'' = Some st \<longrightarrow>
      (\<exists>rest. error_msgs (messages (cross_checks env src a w reqs m)) =
         error_msgs m @ check_layers w la @ check_styles w la st @ rest)"
    using error_msgs_cross_checks [of a la st env src w reqs m] by blast
  have 2: "style_exempt la st \<longrightarrow> check_styles w la st = []"
    by (simp add: check_styles_unfold)
  have 3: "\<not> style_exempt la st \<and>
      length (split_on CHR '','' st) \<noteq> length (split_on CHR '','' la) \<longrightarrow>
      check_styles w la st = [''Not the same number of styles and layers.'']"
    by (simp add: check_styles_unfold)
  have 4: "\<not> style_exempt la st \<and>
      length (split_on CHR '','' st) = length (split_on CHR '','' la) \<longrightarrow>
      (msg \<in> set (check_styles w la st) \<longleftrightarrow>
         (\<exists>l s lay. (l, s) \<in> set (zip (split_on CHR '','' la) (split_on CHR '','' st)) \<and>
            layers (store w) (Some l) = Some lay \<and> s \<noteq> [] \<and> Styles lay (Some s) = None \<and>
            msg = style_msg l s))"
  proof
    assume "\<not> style_exempt la st \<and>
      length (split_on CHR '','' st) = length (split_on CHR '','' la)"
    then have "check_styles w la st =
        concat (map (pair_msgs w) (zip (split_on CHR '','' la) (split_on CHR '','' st)))"
      by (simp add: check_styles_unfold)
    then show "msg \<in> set (check_styles w la st) \<longleftrightarrow>
         (\<exists>l s lay. (l, s) \<in> set (zip (split_on CHR '','' la) (split_on CHR '','' st)) \<and>
            layers (store w) (Some l) = Some lay \<and> s \<noteq> [] \<and> Styles lay (Some s) = None \<and>
            msg = style_msg l s)"
      by (simp only: style_pairs)
  qed
  from 1 2 3 4 show ?thesis by blast
qed

text \<open>
  Layers \<open>base,nolayer\<close> with styles \<open>x,y\<close> against a server that advertises \<open>base\<close>
  without styles.
\<close>

theorem style_check_scope_witness:
  "wms_args_of (parse_qsl no_unquote unmatched_layer_query) ''layers'' = Some ''base,nolayer'' \<and>
   wms_args_of (parse_qsl no_unquote unmatched_layer_query) ''styles'' = Some ''x,y'' \<and>
   \<not> style_exempt ''base,nolayer'' ''x,y'' \<and>
   length (split_on CHR '','' ''x,y'') = length (split_on CHR '','' ''base,nolayer'') \<and>
   (style_msg ''base'' ''x'' \<in> set (check_styles (projr (parse_wms caps_reader ''caps'')) ''base,nolayer'' ''x,y'')) \<and>
   (style_msg ''nolayer'' ''y'' \<notin> set (check_styles (projr (parse_wms caps_reader ''caps'')) ''base,nolayer'' ''x,y''))"
proof -
  let ?w = "projr (parse_wms caps_reader ''caps'')"
  have a: "wms_args_of (parse_qsl no_unquote unmatched_layer_query) ''layers'' = Some ''base,nolayer''"
    by code_simp
  have b: "wms_args_of (parse_qsl no_unquote unmatched_layer_query) ''styles'' = Some ''x,y''"
    by code_simp
  have c: "\<not> style_exempt ''base,nolayer'' ''x,y''" by code_simp
  have d: "length (split_on CHR '','' ''x,y'') = length (split_on CHR '','' ''base,nolayer'')"
    by code_simp
  have z: "zip (split_on CHR '','' ''base,nolayer'') (split_on CHR '','' ''x,y'') =
      [(''base'', ''x''), (''nolayer'', ''y'')]" by code_simp
  have e: "layers (store ?w) (Some ''nolayer'') = None" by code_simp
  have f: "map_option Styles (layers (store ?w) (Some ''base'')) = Some Map.empty"
    by (simp add: parse_wms_def caps_reader_def caps_doc_def el_def rpartition_last_def
        top_layers_def step_def findall_def Let_def child_text_def find_child_def
        upper_def set_add_def)
  have m1: "style_msg ''base'' ''x'' \<noteq> style_msg ''nolayer'' ''y''" by code_simp
  note t = style_check_scope [of _ "''base,nolayer''" "''x,y''" _ _ ?w _ _ , THEN conjunct2,
      THEN conjunct2, THEN conjunct2, rule_format, OF conjI [OF c d], unfolded z]
  have g: "style_msg ''base'' ''x'' \<in> set (check_styles ?w ''base,nolayer'' ''x,y'')"
  proof -
    from f obtain lay where "layers (store ?w) (Some ''base'') = Some lay" "Styles lay = Map.empty"
      by auto
    then have "(''base'', ''x'') \<in> set [(''base'', ''x''), (''nolayer'', ''y'')] \<and>
        layers (store ?w) (Some ''base'') = Some lay \<and> ''x'' \<noteq> [] \<and>
        Styles lay (Some ''x'') = None \<and> style_msg ''base'' ''x'' = style_msg ''base'' ''x''"
      by simp
    then show ?thesis unfolding t by blast
  qed
  have h: "style_msg ''nolayer'' ''y'' \<notin> set (check_styles ?w ''base,nolayer'' ''x,y'')"
    unfolding t using e m1 by auto
  from a b c d g h show ?thesis by blast
qed

text \<open>
  C9 as stated fails: with the requested layer \<open>nolayer\<close> not advertised, the run still
  emits a style message for the layer \<open>base\<close>.
\<close>

theorem style_error_with_unmatched_layer:
  "error_msgs (messages (check_wms (env_with good_server) (wms_source unmatched_layer_url) no_msgs)) =
     [''Layers '' @ sq @ ''nolayer'' @ sq @ '' not advertised by WMS GetCapabilities request.'',
      ''Layer '' @ sq @ ''base'' @ sq @ '' does not support style '' @ sq @ ''x'' @ sq]"
  by code_simp

section \<open>Properties of the tile endpoint validator\<close>

subsection \<open>The vertical tile coordinate\<close>

lemma pow2_nonneg: "0 \<le> e \<Longrightarrow> py_pow2 e = PyInt (2 ^ nat e)"
  by (simp add: py_pow2_def)

text \<open>
  C8, as amended.  For a row \<open>r\<close> of the tile math, \<open>test_zoom\<close> substitutes \<open>r\<close> itself
  when the template has neither \<open>{-y}\<close> nor \<open>{!y}\<close>; the integer \<open>2^z - 1 - r\<close> for \<open>{-y}\<close>
  at every zoom \<open>z \<ge> 0\<close>; and the integer \<open>2^(z-1) - 1 - r\<close> for \<open>{!y}\<close> (in a template
  without \<open>{-y}\<close>) at every zoom \<open>z \<ge> 1\<close>.
\<close>

theorem y_conventions:
  "(\<not> contains ''{-y}'' u \<and> \<not> contains ''{!y}'' u \<longrightarrow>
      y_coord u z r = PyInt r \<and> query_url env u z r = replace_str ''{y}'' (str_int r) u) \<and>
   (contains ''{-y}'' u \<and> 0 \<le> z \<longrightarrow>
      y_coord u z r = PyInt (2 ^ nat z - 1 - r) \<and>
      query_url env u z r = replace_str ''{-y}'' (str_int (2 ^ nat z - 1 - r)) u) \<and>
   (\<not> contains ''{-y}'' u \<and> contains ''{!y}'' u \<and> 1 \<le> z \<longrightarrow>
      y_coord u z r = PyInt (2 ^ nat (z - 1) - 1 - r) \<and>
      query_url env u z r = replace_str ''{!y}'' (str_int (2 ^ nat (z - 1) - 1 - r)) u)"
  by (simp add: y_coord_def query_url_def py_str_def pow2_nonneg)

text \<open>
  The three conventions at zoom 3 and row 1.
\<close>

theorem y_conventions_witness:
  "\<not> contains ''{-y}'' ''http://t.org/{zoom}/{x}/{!y}.png'' \<and>
   contains ''{!y}'' ''http://t.org/{zoom}/{x}/{!y}.png'' \<and> (1::int) \<le> 3 \<and>
   y_coord ''http://t.org/{zoom}/{x}/{!y}.png'' 3 1 = PyInt 2 \<and>
   contains ''{-y}'' ''http://t.org/{zoom}/{x}/{-y}.png'' \<and>
   y_coord ''http://t.org/{zoom}/{x}/{-y}.png'' 3 1 = PyInt 6 \<and>
   query_url (tms_env_with serves_all) ''http://t.org/{zoom}/{x}/{-y}.png'' 3 1 =
     ''http://t.org/{zoom}/{x}/6.png'' \<and>
   y_coord tile_url 3 1 = PyInt 1"
proof -
  have a: "\<not> contains ''{-y}'' ''http://t.org/{zoom}/{x}/{!y}.png''" by code_simp
  have b: "contains ''{!y}'' ''http://t.org/{zoom}/{x}/{!y}.png''" by code_simp
  have c: "contains ''{-y}'' ''http://t.org/{zoom}/{x}/{-y}.png''" by code_simp
  have d: "\<not> contains ''{-y}'' tile_url" "\<not> contains ''{!y}'' tile_url" by code_simp+
  have e: "replace_str ''{-y}'' (str_int (2 ^ nat 3 - 1 - 1)) ''http://t.org/{zoom}/{x}/{-y}.png'' =
     ''http://t.org/{zoom}/{x}/6.png''" by code_simp
  have n: "(2::int) ^ nat 3 - 1 - 1 = 6" "(2::int) ^ nat (3 - 1) - 1 - 1 = 2" by simp_all
  from y_conventions [of "''http://t.org/{zoom}/{x}/{!y}.png''" 3 1 "tms_env_with serves_all"]
    y_conventions [of "''http://t.org/{zoom}/{x}/{-y}.png''" 3 1 "tms_env_with serves_all"]
    y_conventions [of tile_url 3 1 "tms_env_with serves_all"] a b c d e n
  show ?thesis by simp
qed

text \<open>
  C8 as stated fails at zoom 0, the default \<open>min_zoom\<close>: for \<open>{!y}\<close> the code evaluates
  \<open>2 ** (0 - 1)\<close>, the float \<open>0.5\<close>, and the value for row 0 is the float \<open>-0.5\<close>, no
  integer.
\<close>

theorem bang_y_zoom_0:
  "contains ''{!y}'' ''http://t.org/{zoom}/{x}/{!y}.png'' \<and>
   y_coord ''http://t.org/{zoom}/{x}/{!y}.png'' 0 0 = PyFloat (- 1 / 2)"
  by code_simp

subsection \<open>Zoom probing\<close>

lemma test_zoom_probe:
  "test_zoom env u ps z st =
     (case probe env u ps (length (zoom_success st) + length (zoom_failures st)) z of
        Inl e \<Rightarrow> Inl e
      | Inr b \<Rightarrow>
          Inr (b, if b then st\<lparr>tested_zooms := set_add z (tested_zooms st),
                                zoom_success := zoom_success st @ [z]\<rparr>
                  else st\<lparr>tested_zooms := set_add z (tested_zooms st),
                          zoom_failures := zoom_failures st @ [z]\<rparr>))"
  by (simp add: test_zoom_def Let_def split: sum.splits bool.splits)

lemma ranges_5_10: "range_up 5 10 = [6, 7, 8]" "range_down 5 10 = [10, 9, 8, 7]"
  by code_simp+

lemma probe_min_5_10:
  assumes "probe env u ps 0 5 = Inr False" "probe env u ps 1 6 = Inr False"
    "probe env u ps 2 7 = Inr True"
  shows "probe_min env u ps 5 10 no_zooms =
     Inr \<lparr>tested_zooms = [5, 6, 7], zoom_success = [7], zoom_failures = [5, 6]\<rparr>"
  using assms
  by (simp add: probe_min_def no_zooms_def test_zoom_probe ranges_5_10 set_add_def eval_nat_numeral)

lemma probe_max_5_10:
  assumes "probe env u ps 3 10 = Inr r10" "probe env u ps 4 9 = Inr r9"
    "probe env u ps 5 8 = Inr r8"
  shows "probe_max env u ps 5 10
           \<lparr>tested_zooms = [5, 6, 7], zoom_success = [7], zoom_failures = [5, 6]\<rparr> =
     Inr (if r10 then \<lparr>tested_zooms = [5, 6, 7, 10], zoom_success = [7, 10], zoom_failures = [5, 6]\<rparr>
          else if r9 then \<lparr>tested_zooms = [5, 6, 7, 10, 9], zoom_success = [7, 9],
                           zoom_failures = [5, 6, 10]\<rparr>
          else if r8 then \<lparr>tested_zooms = [5, 6, 7, 10, 9, 8], zoom_success = [7, 8],
                           zoom_failures = [5, 6, 10, 9]\<rparr>
          else \<lparr>tested_zooms = [5, 6, 7, 10, 9, 8], zoom_success = [7],
                 zoom_failures = [5, 6, 10, 9, 8]\<rparr>)"
  using assms
  by (cases r10; cases r9; cases r8)
     (simp_all add: probe_max_def test_zoom_probe ranges_5_10 set_add_def eval_nat_numeral)


lemma check_tms_plain:
  assumes "shape_error env = None" "\<not> contains ''{z}'' (url src)"
    "\<not> contains ''{apikey}'' (url src)" "\<not> contains ''{switch:'' (url src)"
    "min_zoom src = Some lo" "max_zoom src = Some hi"
  shows "check_tms env src m =
     (case probe_zooms env (url src) [] lo hi of
        Inl e \<Rightarrow> exception_msg e m
      | Inr st \<Rightarrow> classify st m)"
  using assms by (simp add: check_tms_def Let_def)

lemma classify_mixed:
  "zoom_failures st \<noteq> [] \<Longrightarrow> zoom_success st \<noteq> [] \<Longrightarrow>
   classify st m =
     m\<lparr>error_msgs := error_msgs m
        @ [''Zoom level '' @ join '','' (map str_int (sort (zoom_failures st)))
           @ '' not reachable. (Tested: '' @ join '','' (map str_int (sort (tested_zooms st)))
           @ '')'']\<rparr>"
  by (simp add: classify_def Let_def)

text \<open>
  C3, as amended.  For a source with \<open>min_zoom\<close> 5 and \<open>max_zoom\<close> 10 whose URL has no
  \<open>{z}\<close>, \<open>{apikey}\<close> or \<open>{switch:\<close>, when zoom 5 and then zoom 6 are unreachable and zoom 7
  is reachable, the zooms tested when the test of \<open>min_zoom\<close> and its loop are over are
  exactly 5, 6, 7.  The run then tests \<open>max_zoom\<close>: the final set of tested zooms is
  5, 6, 7, 10, with 9 when zoom 10 is unreachable and with 8 when zoom 9 is unreachable
  too.  The run appends the error message that names the unreachable zooms, 5 and 6
  among them.
\<close>

theorem zoom_probe_widening:
  assumes "shape_error env = None" "\<not> contains ''{z}'' (url src)"
    "\<not> contains ''{apikey}'' (url src)" "\<not> contains ''{switch:'' (url src)"
    "min_zoom src = Some 5" "max_zoom src = Some 10"
    and "probe env (url src) [] 0 5 = Inr False" "probe env (url src) [] 1 6 = Inr False"
    "probe env (url src) [] 2 7 = Inr True"
    and "probe env (url src) [] 3 10 = Inr r10" "probe env (url src) [] 4 9 = Inr r9"
    "probe env (url src) [] 5 8 = Inr r8"
  shows "\<exists>st1 st.
     probe_min env (url src) [] 5 10 no_zooms = Inr st1 \<and>
     set (tested_zooms st1) = {5, 6, 7} \<and>
     probe_max env (url src) [] 5 10 st1 = Inr st \<and>
     probe_zooms env (url src) [] 5 10 = Inr st \<and>
     set (tested_zooms st) = {5, 6, 7, 10} \<union> (if r10 then {} else if r9 then {9} else {9, 8}) \<and>
     set (zoom_failures st) =
       {5, 6} \<union> (if r10 then {} else if r9 then {10} else if r8 then {10, 9} else {10, 9, 8}) \<and>
     check_tms env src m =
       m\<lparr>error_msgs := error_msgs m
          @ [''Zoom level '' @ join '','' (map str_int (sort (zoom_failures st)))
             @ '' not reachable. (Tested: '' @ join '','' (map str_int (sort (tested_zooms st)))
             @ '')'']\<rparr>"
proof -
  let ?st1 = "\<lparr>tested_zooms = [5, 6, 7], zoom_success = [7], zoom_failures = [5, 6]\<rparr>"
  let ?st = "if r10 then \<lparr>tested_zooms = [5, 6, 7, 10], zoom_success = [7, 10], zoom_failures = [5, 6]\<rparr>
          else if r9 then \<lparr>tested_zooms = [5, 6, 7, 10, 9], zoom_success = [7, 9],
                           zoom_failures = [5, 6, 10]\<rparr>
          else if r8 then \<lparr>tested_zooms = [5, 6, 7, 10, 9, 8], zoom_success = [7, 8],
                           zoom_failures = [5, 6, 10, 9]\<rparr>
          else \<lparr>tested_zooms = [5, 6, 7, 10, 9, 8], zoom_success = [7],
                 zoom_failures = [5, 6, 10, 9, 8]\<rparr>"
  have a: "probe_min env (url src) [] 5 10 no_zooms = Inr ?st1"
    using assms(7-9) by (rule probe_min_5_10)
  have b: "probe_max env (url src) [] 5 10 ?st1 = Inr ?st"
    using assms(10-12) by (rule probe_max_5_10)
  have c: "probe_zooms env (url src) [] 5 10 = Inr ?st"
    using a b by (simp add: probe_zooms_def no_zooms_def)
  have d: "set (tested_zooms ?st) =
      {5, 6, 7, 10} \<union> (if r10 then {} else if r9 then {9} else {9, 8})"
    by auto
  have e: "set (zoom_failures ?st) =
      {5, 6} \<union> (if r10 then {} else if r9 then {10} else if r8 then {10, 9} else {10, 9, 8})"
    by auto
  have f: "zoom_failures ?st \<noteq> []" "zoom_success ?st \<noteq> []" by auto
  have g: "check_tms env src m = classify ?st m"
    using check_tms_plain [OF assms(1-6)] c by simp
  have h: "set (tested_zooms ?st1) = {5, 6, 7}" by simp
  show ?thesis
    using a h b c d e g classify_mixed [OF f] by metis
qed

text \<open>
  A server that answers zooms 7 and 9 only.
\<close>

theorem zoom_probe_widening_witness:
  "shape_error (tms_env_with serves_7_9) = None \<and>
   \<not> contains ''{z}'' tile_url \<and> \<not> contains ''{apikey}'' tile_url \<and>
   \<not> contains ''{switch:'' tile_url \<and>
   probe (tms_env_with serves_7_9) tile_url [] 0 5 = Inr False \<and>
   probe (tms_env_with serves_7_9) tile_url [] 1 6 = Inr False \<and>
   probe (tms_env_with serves_7_9) tile_url [] 2 7 = Inr True \<and>
   probe (tms_env_with serves_7_9) tile_url [] 3 10 = Inr False \<and>
   probe (tms_env_with serves_7_9) tile_url [] 4 9 = Inr True \<and>
   (\<exists>st. probe_zooms (tms_env_with serves_7_9) tile_url [] 5 10 = Inr st \<and>
         set (tested_zooms st) = {5, 6, 7, 10, 9} \<and> set (zoom_failures st) = {5, 6, 10})"
proof -
  let ?E = "tms_env_with serves_7_9"
  have u: "url (tms_source 5 10) = tile_url" "min_zoom (tms_source 5 10) = Some 5"
    "max_zoom (tms_source 5 10) = Some 10" by (simp_all add: tms_source_def)
  have s: "shape_error ?E = None" by (simp add: tms_env_with_def)
  have c: "\<not> contains ''{z}'' tile_url" "\<not> contains ''{apikey}'' tile_url"
    "\<not> contains ''{switch:'' tile_url" by code_simp+
  have p: "probe ?E tile_url [] 0 5 = Inr False" "probe ?E tile_url [] 1 6 = Inr False"
    "probe ?E tile_url [] 2 7 = Inr True" "probe ?E tile_url [] 3 10 = Inr False"
    "probe ?E tile_url [] 4 9 = Inr True" "probe ?E tile_url [] 5 8 = Inr False"
    by code_simp+
  from zoom_probe_widening [of ?E "tms_source 5 10" False True False no_msgs, unfolded u,
      OF s c refl refl p]
  obtain st where "probe_zooms ?E tile_url [] 5 10 = Inr st"
    "set (tested_zooms st) = {5, 6, 7, 10} \<union> {9}" "set (zoom_failures st) = {5, 6} \<union> {10}"
    by auto
  then have "\<exists>st. probe_zooms ?E tile_url [] 5 10 = Inr st \<and>
         set (tested_zooms st) = {5, 6, 7, 10, 9} \<and> set (zoom_failures st) = {5, 6, 10}"
    by auto
  with s c p show ?thesis by blast
qed

text \<open>
  C3 as stated fails: with zooms 5 and 6 unreachable and 7 and 10 reachable, the tested
  zooms are 5, 6, 7 and 10.
\<close>

theorem max_zoom_always_tested:
  "probe (tms_env_with serves_7_10) tile_url [] 0 5 = Inr False \<and>
   probe (tms_env_with serves_7_10) tile_url [] 1 6 = Inr False \<and>
   probe (tms_env_with serves_7_10) tile_url [] 2 7 = Inr True \<and>
   map_sum str_error tested_zooms (probe_zooms (tms_env_with serves_7_10) tile_url [] 5 10) =
     Inr [5, 6, 7, 10] \<and>
   check_tms (tms_env_with serves_7_10) (tms_source 5 10) no_msgs =
     \<lparr>good_msgs = [], warning_msgs = [],
      error_msgs = [''Zoom level 5,6 not reachable. (Tested: 5,6,7,10)'']\<rparr>"
  by code_simp

text \<open>
  C4 at \<open>min_zoom = max_zoom = 5\<close>, with every zoom reachable: zoom 5 is requested twice,
  once as \<open>min_zoom\<close> and once as \<open>max_zoom\<close>.
\<close>

theorem same_zoom_probed_twice:
  "map_sum str_error (\<lambda>st. (tested_zooms st, zoom_success st, zoom_failures st))
     (probe_zooms (tms_env_with serves_all) tile_url [] 5 5) = Inr ([5], [5, 5], []) \<and>
   check_tms (tms_env_with serves_all) (tms_source 5 5) no_msgs =
     \<lparr>good_msgs = [''Zoom levels reachable. (Tested: 5)''], warning_msgs = [], error_msgs = []\<rparr>"
  by code_simp

lemma test_zoom_consistent:
  assumes "test_zoom env u ps z st = Inr (b, st')" "consistent st" "z \<notin> set (tested_zooms st)"
  shows "consistent st' \<and> set (tested_zooms st') = insert z (set (tested_zooms st))"
  using assms
  by (auto simp: test_zoom_probe consistent_def probed_def set_add_def
      split: sum.splits if_splits)

lemma probe_loop_consistent:
  "probe_loop env u ps zs st = Inr st' \<Longrightarrow> consistent st \<Longrightarrow>
   consistent st' \<and> set (tested_zooms st') \<subseteq> set (tested_zooms st) \<union> set zs"
proof (induction zs arbitrary: st)
  case Nil
  then show ?case by simp
next
  case (Cons z zs)
  show ?case
  proof (cases "z \<in> set (tested_zooms st)")
    case True
    with Cons.prems have "probe_loop env u ps zs st = Inr st'" by simp
    from Cons.IH [OF this Cons.prems(2)] show ?thesis by auto
  next
    case False
    with Cons.prems(1) obtain b st1 where t: "test_zoom env u ps z st = Inr (b, st1)"
      by (auto split: sum.splits)
    from test_zoom_consistent [OF t Cons.prems(2) False]
    have c1: "consistent st1" and s1: "set (tested_zooms st1) = insert z (set (tested_zooms st))"
      by simp_all
    show ?thesis
    proof (cases b)
      case True
      with Cons.prems(1) False t have "st' = st1" by simp
      with c1 s1 show ?thesis by auto
    next
      case b: False
      with Cons.prems(1) False t have "probe_loop env u ps zs st1 = Inr st'" by simp
      from Cons.IH [OF this c1] s1 show ?thesis by auto
    qed
  qed
qed

lemma range_up_bounds: "z \<in> set (range_up lo hi) \<Longrightarrow> lo < z \<and> z < hi"
  by (auto simp: range_up_def)

lemma consistent_no_zooms: "consistent no_zooms"
  by (simp add: consistent_def probed_def no_zooms_def)

lemma probe_min_consistent:
  assumes "probe_min env u ps lo hi no_zooms = Inr st"
  shows "consistent st \<and> set (tested_zooms st) \<subseteq> insert lo (set (range_up lo hi))"
proof -
  from assms obtain b st0 where t: "test_zoom env u ps lo no_zooms = Inr (b, st0)"
    by (auto simp: probe_min_def split: sum.splits)
  have "lo \<notin> set (tested_zooms no_zooms)" by (simp add: no_zooms_def)
  from test_zoom_consistent [OF t consistent_no_zooms this]
  have c0: "consistent st0" and s0: "set (tested_zooms st0) = {lo}"
    by (simp_all add: no_zooms_def)
  show ?thesis
  proof (cases b)
    case True
    with assms t have "st = st0" by (simp add: probe_min_def)
    with c0 s0 show ?thesis by simp
  next
    case False
    with assms t have "probe_loop env u ps (range_up lo hi) st0 = Inr st"
      by (simp add: probe_min_def)
    from probe_loop_consistent [OF this c0] s0 show ?thesis by auto
  qed
qed

lemma probe_max_consistent:
  assumes "probe_max env u ps lo hi st1 = Inr st" "consistent st1" "hi \<notin> set (tested_zooms st1)"
  shows "consistent st"
proof -
  from assms(1) obtain b st2 where t: "test_zoom env u ps hi st1 = Inr (b, st2)"
    by (auto simp: probe_max_def split: sum.splits)
  from test_zoom_consistent [OF t assms(2,3)] have c2: "consistent st2" by simp
  show ?thesis
  proof (cases b)
    case True
    with assms(1) t have "st = st2" by (simp add: probe_max_def)
    with c2 show ?thesis by simp
  next
    case False
    with assms(1) t have "probe_loop env u ps (range_down lo hi) st2 = Inr st"
      by (simp add: probe_max_def)
    from probe_loop_consistent [OF this c2] show ?thesis by simp
  qed
qed

text \<open>
  With \<open>min_zoom < max_zoom\<close> no zoom is requested twice in a run that ends without an
  exception.
\<close>

lemma no_zoom_twice_below_max:
  assumes "lo < hi" "probe_zooms env u ps lo hi = Inr st"
  shows "distinct (probed st)"
proof -
  from assms(2) obtain st1 where
    a: "probe_min env u ps lo hi no_zooms = Inr st1" and
    b: "probe_max env u ps lo hi st1 = Inr st"
    by (auto simp: probe_zooms_def no_zooms_def split: sum.splits)
  from probe_min_consistent [OF a] have c: "consistent st1"
    and s: "set (tested_zooms st1) \<subseteq> insert lo (set (range_up lo hi))" by simp_all
  from s assms(1) have "hi \<notin> set (tested_zooms st1)"
    using range_up_bounds [of hi lo hi] by auto
  from probe_max_consistent [OF b c this] show ?thesis by (simp add: consistent_def)
qed

end
